theory Spec2Isabelle
  imports Complex_Main "HOL-Library.AList" "HOL-Library.Sublist"
begin

section \<open>JavaScript numbers\<close>

text \<open>
  A JavaScript number is an IEEE double.  The model keeps the finite values as exact reals
  and carries the three non-finite values explicitly, so that a division by zero, the
  propagation of \<open>NaN\<close> and every comparison with \<open>NaN\<close> are branches of the model.
  Rounding, overflow of finite arithmetic and the sign of zero are not modelled; a zero
  divisor is taken as \<open>+0\<close>.
\<close>

datatype jsnum = Fin real | PInf | NInf | NaN

fun js_neg :: "jsnum \<Rightarrow> jsnum" where
  "js_neg (Fin a) = Fin (- a)"
| "js_neg PInf = NInf"
| "js_neg NInf = PInf"
| "js_neg NaN = NaN"

fun js_add :: "jsnum \<Rightarrow> jsnum \<Rightarrow> jsnum" where
  "js_add NaN _ = NaN"
| "js_add _ NaN = NaN"
| "js_add (Fin a) (Fin b) = Fin (a + b)"
| "js_add PInf NInf = NaN"
| "js_add NInf PInf = NaN"
| "js_add PInf _ = PInf"
| "js_add NInf _ = NInf"
| "js_add (Fin a) PInf = PInf"
| "js_add (Fin a) NInf = NInf"

definition js_sub :: "jsnum \<Rightarrow> jsnum \<Rightarrow> jsnum" where
  "js_sub a b = js_add a (js_neg b)"

text \<open>The sign of a number that is neither \<open>NaN\<close> nor zero; \<open>None\<close> for zero.\<close>

fun js_sign :: "jsnum \<Rightarrow> bool option" where
  "js_sign (Fin a) = (if a = 0 then None else Some (0 < a))"
| "js_sign PInf = Some True"
| "js_sign NInf = Some False"
| "js_sign NaN = None"

fun js_mul :: "jsnum \<Rightarrow> jsnum \<Rightarrow> jsnum" where
  "js_mul NaN _ = NaN"
| "js_mul _ NaN = NaN"
| "js_mul (Fin a) (Fin b) = Fin (a * b)"
| "js_mul a b =
     (case (js_sign a, js_sign b) of
        (Some s, Some t) \<Rightarrow> (if s = t then PInf else NInf)
      | _ \<Rightarrow> NaN)"

fun js_div :: "jsnum \<Rightarrow> jsnum \<Rightarrow> jsnum" where
  "js_div NaN _ = NaN"
| "js_div _ NaN = NaN"
| "js_div (Fin a) (Fin b) =
     (if b \<noteq> 0 then Fin (a / b)
      else if a = 0 then NaN
      else if 0 < a then PInf else NInf)"
| "js_div (Fin a) _ = Fin 0"
| "js_div PInf (Fin b) = (if 0 \<le> b then PInf else NInf)"
| "js_div NInf (Fin b) = (if 0 \<le> b then NInf else PInf)"
| "js_div _ _ = NaN"

fun js_lt :: "jsnum \<Rightarrow> jsnum \<Rightarrow> bool" where
  "js_lt NaN _ = False"
| "js_lt _ NaN = False"
| "js_lt (Fin a) (Fin b) = (a < b)"
| "js_lt (Fin a) PInf = True"
| "js_lt (Fin a) NInf = False"
| "js_lt PInf _ = False"
| "js_lt NInf NInf = False"
| "js_lt NInf _ = True"

definition js_gt :: "jsnum \<Rightarrow> jsnum \<Rightarrow> bool" where
  "js_gt a b = js_lt b a"

definition js_ge :: "jsnum \<Rightarrow> jsnum \<Rightarrow> bool" where
  "js_ge a b = (a \<noteq> NaN \<and> b \<noteq> NaN \<and> \<not> js_lt a b)"

text \<open>\<open>Math.max\<close> and \<open>Math.min\<close> of two arguments, \<open>Math.max(...arr)\<close> and \<open>Math.exp\<close>.\<close>

definition js_max :: "jsnum \<Rightarrow> jsnum \<Rightarrow> jsnum" where
  "js_max a b = (if a = NaN \<or> b = NaN then NaN else if js_lt a b then b else a)"

definition js_min :: "jsnum \<Rightarrow> jsnum \<Rightarrow> jsnum" where
  "js_min a b = (if a = NaN \<or> b = NaN then NaN else if js_lt b a then b else a)"

definition js_max_list :: "jsnum list \<Rightarrow> jsnum" where
  "js_max_list arr = foldl js_max NInf arr"

fun js_exp :: "jsnum \<Rightarrow> jsnum" where
  "js_exp (Fin a) = Fin (exp a)"
| "js_exp PInf = PInf"
| "js_exp NInf = Fin 0"
| "js_exp NaN = NaN"

text \<open>Truthiness of a number (\<open>v || 0\<close>): zero and \<open>NaN\<close> are falsy.\<close>

definition js_or0 :: "jsnum \<Rightarrow> jsnum" where
  "js_or0 v = (if v = NaN \<or> v = Fin 0 then Fin 0 else v)"

definition isFinite :: "jsnum \<Rightarrow> bool" where
  "isFinite v = (case v of Fin _ \<Rightarrow> True | _ \<Rightarrow> False)"

section \<open>JavaScript strings\<close>

text \<open>
  A string is its sequence of UTF-16 code units.  \<open>asc\<close> embeds an ASCII literal.
  \<open>trim\<close> removes the white space and line terminators of the language from both ends.
  The case mappings are exact on ASCII and on U+00DF (sharp s, whose upper case is
  the two letters \<open>SS\<close>); every other code unit is left unchanged, so statements about all
  strings are made for ASCII input.
\<close>

type_synonym jsstring = "nat list"

definition asc :: "string \<Rightarrow> jsstring" where
  "asc s = map of_char s"

definition is_space :: "nat \<Rightarrow> bool" where
  "is_space c =
     (c \<in> set [9, 10, 11, 12, 13, 32, 160, 5760, 8232, 8233, 8239, 8287, 12288, 65279]
      \<or> (8192 \<le> c \<and> c \<le> 8202))"

definition trim :: "jsstring \<Rightarrow> jsstring" where
  "trim s = rev (dropWhile is_space (rev (dropWhile is_space s)))"

definition lower_unit :: "nat \<Rightarrow> nat" where
  "lower_unit c = (if 65 \<le> c \<and> c \<le> 90 then c + 32 else c)"

definition upper_unit :: "nat \<Rightarrow> jsstring" where
  "upper_unit c =
     (if 97 \<le> c \<and> c \<le> 122 then [c - 32]
      else if c = 223 then [83, 83]
      else [c])"

definition toLowerCase :: "jsstring \<Rightarrow> jsstring" where
  "toLowerCase s = map lower_unit s"

definition toUpperCase :: "jsstring \<Rightarrow> jsstring" where
  "toUpperCase s = concat (map upper_unit s)"

definition startsWith :: "jsstring \<Rightarrow> jsstring \<Rightarrow> bool" where
  "startsWith s p = (take (length p) s = p)"

text \<open>\<open>s.split('_')\<close> and \<open>parts.join('_')\<close>; the underscore is code unit 95.\<close>

fun split_us :: "jsstring \<Rightarrow> jsstring list" where
  "split_us [] = [[]]"
| "split_us (c # cs) =
     (if c = 95 then [] # split_us cs
      else (case split_us cs of [] \<Rightarrow> [[c]] | p # ps \<Rightarrow> (c # p) # ps))"

fun join_us :: "jsstring list \<Rightarrow> jsstring" where
  "join_us [] = []"
| "join_us [p] = p"
| "join_us (p # q # ps) = p @ 95 # join_us (q # ps)"

text \<open>The decimal rendering of an integer, as a template literal prints it.\<close>

function dec_nat :: "nat \<Rightarrow> jsstring" where
  "dec_nat n = (if n < 10 then [48 + n] else dec_nat (n div 10) @ [48 + n mod 10])"
  by pat_completeness auto
termination
  by (relation "measure id") auto

definition dec_int :: "int \<Rightarrow> jsstring" where
  "dec_int i = (if i < 0 then 45 # dec_nat (nat (- i)) else dec_nat (nat i))"

section \<open>Label normalisation (storageService.js)\<close>

definition normalizeLabel :: "jsstring \<Rightarrow> jsstring" where
  "normalizeLabel label =
     (if label = [] then []
      else
        let formatted = trim label;
            formatted =
              (if startsWith (toLowerCase formatted) (asc ''fresh_'')
               then asc ''Fresh_'' @ drop 6 formatted
               else if startsWith (toLowerCase formatted) (asc ''rotten_'')
               then asc ''Rotten_'' @ drop 7 formatted
               else formatted);
            parts = split_us formatted
        in if length parts > 1
           then join_us (parts[1 := toUpperCase (take 1 (parts ! 1)) @ toLowerCase (drop 1 (parts ! 1))])
           else formatted)"

section \<open>JavaScript values and objects\<close>

text \<open>
  The values a parsed JSON document holds, and \<open>JBuiltin k\<close> for the function or object
  that every plain object inherits from \<open>Object.prototype\<close> under the name \<open>k\<close>.
  An object is the list of its own properties in insertion order; \<open>undefined\<close> is
  \<open>None\<close>.
\<close>

datatype jsval =
    JNull
  | JBool bool
  | JNum jsnum
  | JStr jsstring
  | JArr "jsval list"
  | JObj "(jsstring \<times> jsval) list"
  | JBuiltin jsstring

type_synonym obj = "(jsstring \<times> jsval) list"

fun truthy :: "jsval \<Rightarrow> bool" where
  "truthy JNull = False"
| "truthy (JBool b) = b"
| "truthy (JNum v) = (v \<noteq> NaN \<and> v \<noteq> Fin 0)"
| "truthy (JStr s) = (s \<noteq> [])"
| "truthy (JArr _) = True"
| "truthy (JObj _) = True"
| "truthy (JBuiltin _) = True"

definition object_prototype_keys :: "jsstring list" where
  "object_prototype_keys = map asc
     [''constructor'', ''__defineGetter__'', ''__defineSetter__'', ''hasOwnProperty'',
      ''__lookupGetter__'', ''__lookupSetter__'', ''isPrototypeOf'', ''propertyIsEnumerable'',
      ''toString'', ''valueOf'', ''__proto__'', ''toLocaleString'']"

text \<open>\<open>o[k]\<close> on a plain object: an own property, else what the prototype provides.\<close>

definition obj_get :: "obj \<Rightarrow> jsstring \<Rightarrow> jsval option" where
  "obj_get ob k =
     (case map_of ob k of
        Some v \<Rightarrow> Some v
      | None \<Rightarrow> if k \<in> set object_prototype_keys then Some (JBuiltin k) else None)"

text \<open>
  \<open>v.f\<close> for one of the names \<open>storage_methods\<close>, \<open>ripeness_guide\<close>,
  \<open>preparation_tips\<close>, \<open>source\<close>, which no built-in prototype defines: an own property
  of an object, \<open>undefined\<close> on every other value.
\<close>

definition field :: "jsval \<Rightarrow> jsstring \<Rightarrow> jsval option" where
  "field v f = (case v of JObj fs \<Rightarrow> map_of fs f | _ \<Rightarrow> None)"

text \<open>The own enumerable properties that \<open>{...v}\<close> copies.\<close>

fun own_props :: "jsval \<Rightarrow> (jsstring \<times> jsval) list" where
  "own_props (JObj fs) = fs"
| "own_props (JArr xs) = zip (map dec_nat [0..<length xs]) xs"
| "own_props (JStr s) = zip (map dec_nat [0..<length s]) (map (\<lambda>c. JStr [c]) s)"
| "own_props _ = []"

text \<open>An object literal: the properties are written in order, a later one replacing an
  earlier one of the same name in place.\<close>

definition object_literal :: "(jsstring \<times> jsval) list \<Rightarrow> obj" where
  "object_literal ps = foldl (\<lambda>acc (k, v). AList.update k v acc) [] ps"

text \<open>\<open>a ?? b\<close>: the left operand unless it is \<open>null\<close> or \<open>undefined\<close>.\<close>

definition nullish :: "jsval option \<Rightarrow> jsval option \<Rightarrow> jsval option" where
  "nullish a b = (case a of None \<Rightarrow> b | Some JNull \<Rightarrow> b | Some v \<Rightarrow> Some v)"

definition or_else :: "jsval option \<Rightarrow> jsval \<Rightarrow> jsval" where
  "or_else a d = (case nullish a None of Some v \<Rightarrow> v | None \<Rightarrow> d)"

section \<open>The built-in storage table (storageService.js)\<close>

definition DEFAULT_Fresh_Apple :: "(jsstring \<times> jsval) list" where
  "DEFAULT_Fresh_Apple =
     [(asc ''storage'', JStr (asc ''Refrigerate in crisper drawer at 32-40'' @ [176] @ asc ''F (0-4'' @ [176] @ asc ''C)'')),
      (asc ''shelf_life'', JNum (Fin 42)),
      (asc ''tips'', JStr (asc ''Store away from other fruits to prevent ripening. Optimal humidity 90-95%. Can be stored in perforated plastic bags.'')),
      (asc ''signs_of_spoilage'', JStr (asc ''Soft spots, mold, wrinkled skin, mushy texture'')),
      (asc ''status'', JStr (asc ''Fresh'')),
      (asc ''waste_disposal'', JStr (asc ''Compost if no mold present'')),
      (asc ''storage_methods'', JArr
         [JObj [(asc ''method'', JStr (asc ''Refrigerator'')),
                (asc ''duration'', JStr (asc ''4-6 weeks'')),
                (asc ''temperature'', JStr (asc ''32-40'' @ [176] @ asc ''F (0-4'' @ [176] @ asc ''C)'')),
                (asc ''humidity'', JStr (asc ''90-95%''))],
          JObj [(asc ''method'', JStr (asc ''Cold Storage/Cellar'')),
                (asc ''duration'', JStr (asc ''2-3 months'')),
                (asc ''temperature'', JStr (asc ''30-32'' @ [176] @ asc ''F (-1-0'' @ [176] @ asc ''C)'')),
                (asc ''humidity'', JStr (asc ''90%''))],
          JObj [(asc ''method'', JStr (asc ''Room Temperature'')),
                (asc ''duration'', JStr (asc ''5-7 days'')),
                (asc ''temperature'', JStr (asc ''60-70'' @ [176] @ asc ''F (15-21'' @ [176] @ asc ''C)'')),
                (asc ''humidity'', JStr (asc ''n/a''))]]),
      (asc ''source'', JStr (asc ''USDA Food Storage Guidelines & University of Maine Cooperative Extension''))]"

definition DEFAULT_Fresh_Banana :: "(jsstring \<times> jsval) list" where
  "DEFAULT_Fresh_Banana =
     [(asc ''storage'', JStr (asc ''Store at room temperature away from direct sunlight; refrigerate only when fully ripe'')),
      (asc ''shelf_life'', JNum (Fin 5)),
      (asc ''tips'', JStr (asc ''Bananas ripen faster when stored near other fruits due to ethylene gas. Refrigeration darkens the peel but keeps the inside firm longer.'')),
      (asc ''signs_of_spoilage'', JStr (asc ''Large brown/black patches, leaking liquid, fermented smell, mushy texture'')),
      (asc ''status'', JStr (asc ''Fresh'')),
      (asc ''waste_disposal'', JStr (asc ''Compost peels; discard spoiled fruit in sealed bag'')),
      (asc ''storage_methods'', JArr
         [JObj [(asc ''method'', JStr (asc ''Room Temperature'')),
                (asc ''duration'', JStr (asc ''2-5 days (unripe), 2-3 days (ripe)'')),
                (asc ''temperature'', JStr (asc ''60-70'' @ [176] @ asc ''F (15-21'' @ [176] @ asc ''C)'')),
                (asc ''humidity'', JStr (asc ''n/a''))],
          JObj [(asc ''method'', JStr (asc ''Refrigerator'')),
                (asc ''duration'', JStr (asc ''5-7 days (ripe only)'')),
                (asc ''temperature'', JStr (asc ''32-40'' @ [176] @ asc ''F (0-4'' @ [176] @ asc ''C)'')),
                (asc ''humidity'', JStr (asc ''n/a''))],
          JObj [(asc ''method'', JStr (asc ''Freezer'')),
                (asc ''duration'', JStr (asc ''2-3 months'')),
                (asc ''temperature'', JStr (asc ''0'' @ [176] @ asc ''F (-18'' @ [176] @ asc ''C)'')),
                (asc ''humidity'', JStr (asc ''n/a''))]]),
      (asc ''source'', JStr (asc ''USDA & University of Florida IFAS Extension''))]"

definition DEFAULT_Fresh_Orange :: "(jsstring \<times> jsval) list" where
  "DEFAULT_Fresh_Orange =
     [(asc ''storage'', JStr (asc ''Refrigerate for longest freshness or keep at room temperature if consuming soon'')),
      (asc ''shelf_life'', JNum (Fin 21)),
      (asc ''tips'', JStr (asc ''Avoid storing in sealed plastic bags; allow airflow. Keep away from moisture to prevent mold.'')),
      (asc ''signs_of_spoilage'', JStr (asc ''Soft spots, sour or fermented smell, mold (white/green/blue), leaking juice'')),
      (asc ''status'', JStr (asc ''Fresh'')),
      (asc ''waste_disposal'', JStr (asc ''Compost peels if clean; discard moldy oranges in sealed bag'')),
      (asc ''storage_methods'', JArr
         [JObj [(asc ''method'', JStr (asc ''Refrigerator'')),
                (asc ''duration'', JStr (asc ''2-3 weeks'')),
                (asc ''temperature'', JStr (asc ''32-40'' @ [176] @ asc ''F (0-4'' @ [176] @ asc ''C)'')),
                (asc ''humidity'', JStr (asc ''85-95%''))],
          JObj [(asc ''method'', JStr (asc ''Room Temperature'')),
                (asc ''duration'', JStr (asc ''5-7 days'')),
                (asc ''temperature'', JStr (asc ''60-70'' @ [176] @ asc ''F (15-21'' @ [176] @ asc ''C)'')),
                (asc ''humidity'', JStr (asc ''n/a''))]]),
      (asc ''source'', JStr (asc ''USDA & University of California Agriculture and Natural Resources''))]"

definition DEFAULT_Fresh_Manggo :: "(jsstring \<times> jsval) list" where
  "DEFAULT_Fresh_Manggo =
     [(asc ''storage'', JStr (asc ''Store at room temperature until ripe; refrigerate once ripe to extend freshness'')),
      (asc ''shelf_life'', JNum (Fin 7)),
      (asc ''tips'', JStr (asc ''Keep unripe mangoes at room temperature. Once ripe, refrigerate to slow softening. Avoid stacking to prevent bruising.'')),
      (asc ''signs_of_spoilage'', JStr (asc ''Fermented or sour smell, excessive softness, leaking juice, dark moldy spots'')),
      (asc ''status'', JStr (asc ''Fresh'')),
      (asc ''waste_disposal'', JStr (asc ''Compost peels and seeds if no mold; discard moldy mangoes in sealed bag'')),
      (asc ''storage_methods'', JArr
         [JObj [(asc ''method'', JStr (asc ''Room Temperature (Unripe)'')),
                (asc ''duration'', JStr (asc ''2-4 days'')),
                (asc ''temperature'', JStr (asc ''60-70'' @ [176] @ asc ''F (15-21'' @ [176] @ asc ''C)'')),
                (asc ''humidity'', JStr (asc ''n/a''))],
          JObj [(asc ''method'', JStr (asc ''Refrigerator (Ripe)'')),
                (asc ''duration'', JStr (asc ''3-5 days'')),
                (asc ''temperature'', JStr (asc ''32-40'' @ [176] @ asc ''F (0-4'' @ [176] @ asc ''C)'')),
                (asc ''humidity'', JStr (asc ''n/a''))],
          JObj [(asc ''method'', JStr (asc ''Freezer (Cut Mango)'')),
                (asc ''duration'', JStr (asc ''10-12 months'')),
                (asc ''temperature'', JStr (asc ''0'' @ [176] @ asc ''F (-18'' @ [176] @ asc ''C)'')),
                (asc ''humidity'', JStr (asc ''n/a''))]]),
      (asc ''source'', JStr (asc ''USDA & National Mango Board''))]"

definition DEFAULT_Fresh_Strawberry :: "(jsstring \<times> jsval) list" where
  "DEFAULT_Fresh_Strawberry =
     [(asc ''storage'', JStr (asc ''Refrigerate immediately; keep dry and store unwashed in a breathable container.'')),
      (asc ''shelf_life'', JNum (Fin 3)),
      (asc ''tips'', JStr (asc ''Do not wash until ready to eat. Remove any spoiled berries immediately to prevent spread of mold.'')),
      (asc ''signs_of_spoilage'', JStr (asc ''White/green mold, soft or mushy texture, leaking juice, fermented or sour smell'')),
      (asc ''status'', JStr (asc ''Fresh'')),
      (asc ''waste_disposal'', JStr (asc ''Compost if free of mold; if moldy, seal in bag and dispose in trash.'')),
      (asc ''storage_methods'', JArr
         [JObj [(asc ''method'', JStr (asc ''Refrigerator'')),
                (asc ''duration'', JStr (asc ''2'' @ [8211] @ asc ''3 days'')),
                (asc ''temperature'', JStr (asc ''32'' @ [8211] @ asc ''36'' @ [176] @ asc ''F (0'' @ [8211] @ asc ''2'' @ [176] @ asc ''C)'')),
                (asc ''humidity'', JStr (asc ''High humidity recommended''))],
          JObj [(asc ''method'', JStr (asc ''Freezer (Whole or Sliced)'')),
                (asc ''duration'', JStr (asc ''8'' @ [8211] @ asc ''12 months'')),
                (asc ''temperature'', JStr (asc ''0'' @ [176] @ asc ''F (-18'' @ [176] @ asc ''C)'')),
                (asc ''humidity'', JStr (asc ''n/a''))],
          JObj [(asc ''method'', JStr (asc ''Paper-Towel Container Method'')),
                (asc ''duration'', JStr (asc ''4'' @ [8211] @ asc ''7 days'')),
                (asc ''temperature'', JStr (asc ''Refrigerated'')),
                (asc ''humidity'', JStr (asc ''Moderate, moisture-controlled''))]]),
      (asc ''source'', JStr (asc ''USDA & UC Agriculture and Natural Resources''))]"

definition DEFAULT_Fresh_Potato :: "(jsstring \<times> jsval) list" where
  "DEFAULT_Fresh_Potato =
     [(asc ''storage'', JStr (asc ''Store in a cool, dark, well-ventilated place; avoid refrigeration to prevent starch-to-sugar conversion.'')),
      (asc ''shelf_life'', JNum (Fin 30)),
      (asc ''tips'', JStr (asc ''Keep potatoes away from onions to prevent faster spoilage. Remove sprouting potatoes immediately to slow deterioration.'')),
      (asc ''signs_of_spoilage'', JStr (asc ''Soft or mushy texture, large green patches, mold growth, foul or earthy rotten odor, excessive sprouting'')),
      (asc ''status'', JStr (asc ''Fresh'')),
      (asc ''waste_disposal'', JStr (asc ''Compost if not moldy; otherwise seal in a bag and dispose in regular trash.'')),
      (asc ''storage_methods'', JArr
         [JObj [(asc ''method'', JStr (asc ''Pantry (Cool, Dark Area)'')),
                (asc ''duration'', JStr (asc ''3'' @ [8211] @ asc ''6 weeks'')),
                (asc ''temperature'', JStr (asc ''45'' @ [8211] @ asc ''55'' @ [176] @ asc ''F (7'' @ [8211] @ asc ''13'' @ [176] @ asc ''C)'')),
                (asc ''humidity'', JStr (asc ''High humidity recommended''))],
          JObj [(asc ''method'', JStr (asc ''Refrigerator (Not Recommended)'')),
                (asc ''duration'', JStr (asc ''Not advised'')),
                (asc ''temperature'', JStr (asc ''32'' @ [8211] @ asc ''40'' @ [176] @ asc ''F (0'' @ [8211] @ asc ''4'' @ [176] @ asc ''C)'')),
                (asc ''humidity'', JStr (asc ''n/a''))],
          JObj [(asc ''method'', JStr (asc ''Root Cellar'')),
                (asc ''duration'', JStr (asc ''2'' @ [8211] @ asc ''3 months'')),
                (asc ''temperature'', JStr (asc ''40'' @ [8211] @ asc ''50'' @ [176] @ asc ''F (4'' @ [8211] @ asc ''10'' @ [176] @ asc ''C)'')),
                (asc ''humidity'', JStr (asc ''90'' @ [8211] @ asc ''95%''))]]),
      (asc ''source'', JStr (asc ''USDA & Produce Storage Guidelines''))]"

definition DEFAULT_Fresh_Carrot :: "(jsstring \<times> jsval) list" where
  "DEFAULT_Fresh_Carrot =
     [(asc ''storage'', JStr (asc ''Refrigerate in the crisper drawer at 32-40'' @ [176] @ asc ''F (0-4'' @ [176] @ asc ''C)'')),
      (asc ''shelf_life'', JNum (Fin 30)),
      (asc ''tips'', JStr (asc ''Remove carrot tops to prevent moisture loss. Store in perforated plastic bags for optimal humidity.'')),
      (asc ''signs_of_spoilage'', JStr (asc ''Limp texture, white dryness on surface, sliminess, mold patches, foul odor'')),
      (asc ''status'', JStr (asc ''Fresh'')),
      (asc ''waste_disposal'', JStr (asc ''Compost if no mold; discard moldy or slimy carrots in sealed bag'')),
      (asc ''storage_methods'', JArr
         [JObj [(asc ''method'', JStr (asc ''Refrigerator'')),
                (asc ''duration'', JStr (asc ''3-4 weeks'')),
                (asc ''temperature'', JStr (asc ''32-40'' @ [176] @ asc ''F (0-4'' @ [176] @ asc ''C)'')),
                (asc ''humidity'', JStr (asc ''90-95%''))],
          JObj [(asc ''method'', JStr (asc ''Root Cellar'')),
                (asc ''duration'', JStr (asc ''2-4 months'')),
                (asc ''temperature'', JStr (asc ''32-40'' @ [176] @ asc ''F (0-4'' @ [176] @ asc ''C)'')),
                (asc ''humidity'', JStr (asc ''95%''))],
          JObj [(asc ''method'', JStr (asc ''Room Temperature'')),
                (asc ''duration'', JStr (asc ''3-5 days'')),
                (asc ''temperature'', JStr (asc ''60-70'' @ [176] @ asc ''F (15-21'' @ [176] @ asc ''C)'')),
                (asc ''humidity'', JStr (asc ''n/a''))]]),
      (asc ''source'', JStr (asc ''USDA & University of Nebraska-Lincoln Extension''))]"

definition DEFAULT_Fresh_Pepper :: "(jsstring \<times> jsval) list" where
  "DEFAULT_Fresh_Pepper =
     [(asc ''storage'', JStr (asc ''Refrigerate in the crisper drawer; keep dry and unwashed until use'')),
      (asc ''shelf_life'', JNum (Fin 10)),
      (asc ''tips'', JStr (asc ''Store in a breathable bag. Bell peppers last longer than thin-walled peppers. Moisture speeds spoilage.'')),
      (asc ''signs_of_spoilage'', JStr (asc ''Wrinkled skin, soft or sunken spots, mold near stem, sour odor'')),
      (asc ''status'', JStr (asc ''Fresh'')),
      (asc ''waste_disposal'', JStr (asc ''Compost if not moldy; discard moldy peppers in sealed bag'')),
      (asc ''storage_methods'', JArr
         [JObj [(asc ''method'', JStr (asc ''Refrigerator'')),
                (asc ''duration'', JStr (asc ''1-2 weeks'')),
                (asc ''temperature'', JStr (asc ''45-50'' @ [176] @ asc ''F (7-10'' @ [176] @ asc ''C)'')),
                (asc ''humidity'', JStr (asc ''90-95%''))],
          JObj [(asc ''method'', JStr (asc ''Room Temperature'')),
                (asc ''duration'', JStr (asc ''2-3 days'')),
                (asc ''temperature'', JStr (asc ''60-70'' @ [176] @ asc ''F (15-21'' @ [176] @ asc ''C)'')),
                (asc ''humidity'', JStr (asc ''n/a''))],
          JObj [(asc ''method'', JStr (asc ''Freezer (Chopped)'')),
                (asc ''duration'', JStr (asc ''10-12 months'')),
                (asc ''temperature'', JStr (asc ''0'' @ [176] @ asc ''F (-18'' @ [176] @ asc ''C)'')),
                (asc ''humidity'', JStr (asc ''n/a''))]]),
      (asc ''source'', JStr (asc ''USDA & University of Minnesota Extension''))]"

definition DEFAULT_Fresh_Cucumber :: "(jsstring \<times> jsval) list" where
  "DEFAULT_Fresh_Cucumber =
     [(asc ''storage'', JStr (asc ''Refrigerate in the crisper drawer; keep dry to prevent mold'')),
      (asc ''shelf_life'', JNum (Fin 7)),
      (asc ''tips'', JStr (asc ''Do not store near ethylene-producing fruits (apples, bananas). Wrap in paper towel and place in a loose plastic bag for longest freshness.'')),
      (asc ''signs_of_spoilage'', JStr (asc ''Soft spots, shriveling, sliminess, leaking moisture, mold growth'')),
      (asc ''status'', JStr (asc ''Fresh'')),
      (asc ''waste_disposal'', JStr (asc ''Compost if not moldy; discard moldy or slimy cucumbers in sealed bag'')),
      (asc ''storage_methods'', JArr
         [JObj [(asc ''method'', JStr (asc ''Refrigerator'')),
                (asc ''duration'', JStr (asc ''5-7 days'')),
                (asc ''temperature'', JStr (asc ''45-50'' @ [176] @ asc ''F (7-10'' @ [176] @ asc ''C)'')),
                (asc ''humidity'', JStr (asc ''90-95%''))],
          JObj [(asc ''method'', JStr (asc ''Room Temperature'')),
                (asc ''duration'', JStr (asc ''1-2 days'')),
                (asc ''temperature'', JStr (asc ''60-70'' @ [176] @ asc ''F (15-21'' @ [176] @ asc ''C)'')),
                (asc ''humidity'', JStr (asc ''n/a''))]]),
      (asc ''source'', JStr (asc ''USDA & Virginia Cooperative Extension''))]"

definition DEFAULT_Fresh_Okra :: "(jsstring \<times> jsval) list" where
  "DEFAULT_Fresh_Okra =
     [(asc ''storage'', JStr (asc ''Refrigerate in a breathable bag; avoid moisture to prevent sliminess'')),
      (asc ''shelf_life'', JNum (Fin 4)),
      (asc ''tips'', JStr (asc ''Keep okra dry'' @ [8212] @ asc ''moisture speeds spoilage. Do not wash before storing. Use within a few days for best texture.'')),
      (asc ''signs_of_spoilage'', JStr (asc ''Dark spots, limp or soft pods, slimy texture, mold on stems'')),
      (asc ''status'', JStr (asc ''Fresh'')),
      (asc ''waste_disposal'', JStr (asc ''Compost if no mold; discard moldy or slimy okra in sealed bag'')),
      (asc ''storage_methods'', JArr
         [JObj [(asc ''method'', JStr (asc ''Refrigerator'')),
                (asc ''duration'', JStr (asc ''2-4 days'')),
                (asc ''temperature'', JStr (asc ''45-50'' @ [176] @ asc ''F (7-10'' @ [176] @ asc ''C)'')),
                (asc ''humidity'', JStr (asc ''90-95%''))],
          JObj [(asc ''method'', JStr (asc ''Room Temperature'')),
                (asc ''duration'', JStr (asc ''1 day max'')),
                (asc ''temperature'', JStr (asc ''60-70'' @ [176] @ asc ''F (15-21'' @ [176] @ asc ''C)'')),
                (asc ''humidity'', JStr (asc ''n/a''))],
          JObj [(asc ''method'', JStr (asc ''Freezer (Blanched)'')),
                (asc ''duration'', JStr (asc ''8-12 months'')),
                (asc ''temperature'', JStr (asc ''0'' @ [176] @ asc ''F (-18'' @ [176] @ asc ''C)'')),
                (asc ''humidity'', JStr (asc ''n/a''))]]),
      (asc ''source'', JStr (asc ''USDA & University of Georgia Extension (National Center for Home Food Preservation)''))]"

definition DEFAULT_Fresh_Beef :: "(jsstring \<times> jsval) list" where
  "DEFAULT_Fresh_Beef =
     [(asc ''storage'', JStr (asc ''Refrigerate at 32-40'' @ [176] @ asc ''F (0-4'' @ [176] @ asc ''C) or freeze immediately'')),
      (asc ''shelf_life'', JNum (Fin 5)),
      (asc ''tips'', JStr (asc ''Store on the lowest refrigerator shelf to avoid cross-contamination. Keep in original packaging or rewrap tightly.'')),
      (asc ''signs_of_spoilage'', JStr (asc ''Gray-brown color, slimy texture, sticky surface, sour or ammonia-like odor'')),
      (asc ''status'', JStr (asc ''Fresh'')),
      (asc ''waste_disposal'', JStr (asc ''Seal and discard immediately; do not compost raw meat'')),
      (asc ''storage_methods'', JArr
         [JObj [(asc ''method'', JStr (asc ''Refrigerator (Ground Beef)'')),
                (asc ''duration'', JStr (asc ''1-2 days'')),
                (asc ''temperature'', JStr (asc ''32-40'' @ [176] @ asc ''F (0-4'' @ [176] @ asc ''C)'')),
                (asc ''humidity'', JStr (asc ''n/a''))],
          JObj [(asc ''method'', JStr (asc ''Refrigerator (Steaks/Roasts)'')),
                (asc ''duration'', JStr (asc ''3-5 days'')),
                (asc ''temperature'', JStr (asc ''32-40'' @ [176] @ asc ''F (0-4'' @ [176] @ asc ''C)'')),
                (asc ''humidity'', JStr (asc ''n/a''))],
          JObj [(asc ''method'', JStr (asc ''Freezer (Ground Beef)'')),
                (asc ''duration'', JStr (asc ''3-4 months'')),
                (asc ''temperature'', JStr (asc ''0'' @ [176] @ asc ''F (-18'' @ [176] @ asc ''C)'')),
                (asc ''humidity'', JStr (asc ''n/a''))],
          JObj [(asc ''method'', JStr (asc ''Freezer (Steaks/Roasts)'')),
                (asc ''duration'', JStr (asc ''6-12 months'')),
                (asc ''temperature'', JStr (asc ''0'' @ [176] @ asc ''F (-18'' @ [176] @ asc ''C)'')),
                (asc ''humidity'', JStr (asc ''n/a''))]]),
      (asc ''source'', JStr (asc ''USDA Food Safety and Inspection Service (FSIS)''))]"

definition DEFAULT_Fresh_Chicken :: "(jsstring \<times> jsval) list" where
  "DEFAULT_Fresh_Chicken =
     [(asc ''storage'', JStr (asc ''Refrigerate at 32-40'' @ [176] @ asc ''F (0-4'' @ [176] @ asc ''C) or freeze immediately after purchase'')),
      (asc ''shelf_life'', JNum (Fin 2)),
      (asc ''tips'', JStr (asc ''Keep chicken in its original packaging and place it on the bottom shelf to prevent cross-contamination. Handle with clean hands and sanitize surfaces.'')),
      (asc ''signs_of_spoilage'', JStr (asc ''Slimy texture, sour or sulfur-like odor, grayish color, sticky surface'')),
      (asc ''status'', JStr (asc ''Fresh'')),
      (asc ''waste_disposal'', JStr (asc ''Seal raw chicken waste in a bag and discard immediately; never compost raw poultry'')),
      (asc ''storage_methods'', JArr
         [JObj [(asc ''method'', JStr (asc ''Refrigerator (Whole Chicken)'')),
                (asc ''duration'', JStr (asc ''1-2 days'')),
                (asc ''temperature'', JStr (asc ''32-40'' @ [176] @ asc ''F (0-4'' @ [176] @ asc ''C)'')),
                (asc ''humidity'', JStr (asc ''n/a''))],
          JObj [(asc ''method'', JStr (asc ''Refrigerator (Cut Chicken)'')),
                (asc ''duration'', JStr (asc ''1-2 days'')),
                (asc ''temperature'', JStr (asc ''32-40'' @ [176] @ asc ''F (0-4'' @ [176] @ asc ''C)'')),
                (asc ''humidity'', JStr (asc ''n/a''))],
          JObj [(asc ''method'', JStr (asc ''Freezer (Whole Chicken)'')),
                (asc ''duration'', JStr (asc ''12 months'')),
                (asc ''temperature'', JStr (asc ''0'' @ [176] @ asc ''F (-18'' @ [176] @ asc ''C)'')),
                (asc ''humidity'', JStr (asc ''n/a''))],
          JObj [(asc ''method'', JStr (asc ''Freezer (Chicken Parts)'')),
                (asc ''duration'', JStr (asc ''9 months'')),
                (asc ''temperature'', JStr (asc ''0'' @ [176] @ asc ''F (-18'' @ [176] @ asc ''C)'')),
                (asc ''humidity'', JStr (asc ''n/a''))]]),
      (asc ''source'', JStr (asc ''USDA Food Safety and Inspection Service (FSIS)''))]"

definition DEFAULT_Fresh_Pork :: "(jsstring \<times> jsval) list" where
  "DEFAULT_Fresh_Pork =
     [(asc ''storage'', JStr (asc ''Refrigerate immediately; keep in original packaging or airtight container'')),
      (asc ''shelf_life'', JNum (Fin 3)),
      (asc ''tips'', JStr (asc ''Keep raw pork on the lowest refrigerator shelf to avoid cross-contamination. Freeze if not using within 3 days.'')),
      (asc ''signs_of_spoilage'', JStr (asc ''Slimy surface, gray/green discoloration, sour or ammonia-like odor'')),
      (asc ''status'', JStr (asc ''Fresh'')),
      (asc ''waste_disposal'', JStr (asc ''Seal tightly and dispose in trash; avoid composting raw meat'')),
      (asc ''storage_methods'', JArr
         [JObj [(asc ''method'', JStr (asc ''Refrigerator'')),
                (asc ''duration'', JStr (asc ''2-3 days'')),
                (asc ''temperature'', JStr (asc ''32-40'' @ [176] @ asc ''F (0-4'' @ [176] @ asc ''C)'')),
                (asc ''humidity'', JStr (asc ''n/a''))],
          JObj [(asc ''method'', JStr (asc ''Freezer'')),
                (asc ''duration'', JStr (asc ''4-12 months'')),
                (asc ''temperature'', JStr (asc ''0'' @ [176] @ asc ''F (-18'' @ [176] @ asc ''C)'')),
                (asc ''humidity'', JStr (asc ''n/a''))],
          JObj [(asc ''method'', JStr (asc ''Vacuum-Sealed Freezer'')),
                (asc ''duration'', JStr (asc ''1-2 years'')),
                (asc ''temperature'', JStr (asc ''0'' @ [176] @ asc ''F (-18'' @ [176] @ asc ''C)'')),
                (asc ''humidity'', JStr (asc ''n/a''))]]),
      (asc ''source'', JStr (asc ''USDA Food Safety & Inspection Service''))]"

definition DEFAULT_Rotten_Apple :: "(jsstring \<times> jsval) list" where
  "DEFAULT_Rotten_Apple =
     [(asc ''storage'', JStr (asc ''Do not store; discard immediately.'')),
      (asc ''shelf_life'', JNum (Fin 0)),
      (asc ''tips'', JStr (asc ''Rotten apples release ethylene gas, accelerating spoilage of nearby produce. Keep away from other food.'')),
      (asc ''signs_of_spoilage'', JStr (asc ''Brown/black soft spots, fermented smell, leaking juices, mold growth, wrinkled collapsed skin'')),
      (asc ''status'', JStr (asc ''Rotten'')),
      (asc ''waste_disposal'', JStr (asc ''Compost only if no mold is present; if moldy, seal in a bag and dispose in trash.'')),
      (asc ''storage_methods'', JArr []),
      (asc ''source'', JStr (asc ''USDA & University of Maine Cooperative Extension''))]"

definition DEFAULT_Rotten_Banana :: "(jsstring \<times> jsval) list" where
  "DEFAULT_Rotten_Banana =
     [(asc ''storage'', JStr (asc ''Do not store; discard immediately.'')),
      (asc ''shelf_life'', JNum (Fin 0)),
      (asc ''tips'', JStr (asc ''Rotten bananas attract fruit flies and can contaminate nearby produce. Handle carefully to avoid leaks.'')),
      (asc ''signs_of_spoilage'', JStr (asc ''Black mushy peel, leaking liquid, fermented or alcohol-like smell, visible mold, slimy texture'')),
      (asc ''status'', JStr (asc ''Rotten'')),
      (asc ''waste_disposal'', JStr (asc ''Do not compost moldy bananas. Seal in a plastic bag and dispose in trash.'')),
      (asc ''storage_methods'', JArr []),
      (asc ''source'', JStr (asc ''USDA & University of California Agriculture and Natural Resources''))]"

definition DEFAULT_Rotten_Orange :: "(jsstring \<times> jsval) list" where
  "DEFAULT_Rotten_Orange =
     [(asc ''storage'', JStr (asc ''Do not store; discard immediately.'')),
      (asc ''shelf_life'', JNum (Fin 0)),
      (asc ''tips'', JStr (asc ''Citrus fruits with mold can spread spores quickly. Even small mold spots indicate internal spoilage.'')),
      (asc ''signs_of_spoilage'', JStr (asc ''Soft or sunken areas, white/green/blue mold, fermented smell, leaking juice, bitter or off odor'')),
      (asc ''status'', JStr (asc ''Rotten'')),
      (asc ''waste_disposal'', JStr (asc ''Do not compost moldy citrus; seal in a plastic bag and discard in trash.'')),
      (asc ''storage_methods'', JArr []),
      (asc ''source'', JStr (asc ''USDA & Clemson Cooperative Extension''))]"

definition DEFAULT_Rotten_Manggo :: "(jsstring \<times> jsval) list" where
  "DEFAULT_Rotten_Manggo =
     [(asc ''storage'', JStr (asc ''Do not store; discard immediately.'')),
      (asc ''shelf_life'', JNum (Fin 0)),
      (asc ''tips'', JStr (asc ''Mangoes spoil quickly once bruised. Rotten mangoes release liquid and attract insects.'')),
      (asc ''signs_of_spoilage'', JStr (asc ''Fermented or alcoholic smell, leaking juice, brown/black soft areas, mold growth, wrinkled skin'')),
      (asc ''status'', JStr (asc ''Rotten'')),
      (asc ''waste_disposal'', JStr (asc ''Compost only if there is no mold. If moldy, seal in a bag and dispose in trash.'')),
      (asc ''storage_methods'', JArr []),
      (asc ''source'', JStr (asc ''USDA & National Center for Home Food Preservation''))]"

definition DEFAULT_Rotten_Strawberry :: "(jsstring \<times> jsval) list" where
  "DEFAULT_Rotten_Strawberry =
     [(asc ''storage'', JStr (asc ''Do not store; discard immediately.'')),
      (asc ''shelf_life'', JNum (Fin 0)),
      (asc ''tips'', JStr (asc ''Strawberries spoil extremely fast. One moldy berry can spread contamination throughout the entire container.'')),
      (asc ''signs_of_spoilage'', JStr (asc ''White or green mold, mushy or collapsing texture, dark wet spots, fermented or sour odor'')),
      (asc ''status'', JStr (asc ''Rotten'')),
      (asc ''waste_disposal'', JStr (asc ''Do NOT compost moldy berries. Seal in a bag and dispose in household trash.'')),
      (asc ''storage_methods'', JArr []),
      (asc ''source'', JStr (asc ''USDA & UC Agriculture and Natural Resources''))]"

definition DEFAULT_Rotten_Carrot :: "(jsstring \<times> jsval) list" where
  "DEFAULT_Rotten_Carrot =
     [(asc ''storage'', JStr (asc ''Do not store; discard immediately.'')),
      (asc ''shelf_life'', JNum (Fin 0)),
      (asc ''tips'', JStr (asc ''Spoiled carrots can develop mold and a slimy texture. Separate from other vegetables to avoid spreading contamination.'')),
      (asc ''signs_of_spoilage'', JStr (asc ''Slimy surface, mushy texture, dark or black spots, white mold growth, sour smell'')),
      (asc ''status'', JStr (asc ''Rotten'')),
      (asc ''waste_disposal'', JStr (asc ''Compost only if there is **no mold present**. If moldy, seal in a bag and place in trash.'')),
      (asc ''storage_methods'', JArr []),
      (asc ''source'', JStr (asc ''USDA & University of Minnesota Extension''))]"

definition DEFAULT_Rotten_Cucumber :: "(jsstring \<times> jsval) list" where
  "DEFAULT_Rotten_Cucumber =
     [(asc ''storage'', JStr (asc ''Do not store; discard immediately.'')),
      (asc ''shelf_life'', JNum (Fin 0)),
      (asc ''tips'', JStr (asc ''Cucumbers spoil quickly once moisture builds up. Rot spreads fast to nearby vegetables.'')),
      (asc ''signs_of_spoilage'', JStr (asc ''Soft, watery texture; leaking liquid; yellowing; mold patches; sour smell'')),
      (asc ''status'', JStr (asc ''Rotten'')),
      (asc ''waste_disposal'', JStr (asc ''Compost only if there is no mold present. If moldy or leaking, seal in a bag and place in trash.'')),
      (asc ''storage_methods'', JArr []),
      (asc ''source'', JStr (asc ''USDA & University of Wisconsin Horticulture''))]"

definition DEFAULT_Rotten_Okra :: "(jsstring \<times> jsval) list" where
  "DEFAULT_Rotten_Okra =
     [(asc ''storage'', JStr (asc ''Do not store; discard immediately.'')),
      (asc ''shelf_life'', JNum (Fin 0)),
      (asc ''tips'', JStr (asc ''Okra becomes slimy very quickly once it starts spoiling. Keep spoiled okra away from fresh produce.'')),
      (asc ''signs_of_spoilage'', JStr (asc ''Slimy coating, dark brown/black spots, mushy texture, sour or unpleasant odor, mold patches'')),
      (asc ''status'', JStr (asc ''Rotten'')),
      (asc ''waste_disposal'', JStr (asc ''Compost only if there is no mold present. If moldy, seal in a bag and place in trash.'')),
      (asc ''storage_methods'', JArr []),
      (asc ''source'', JStr (asc ''USDA & University of Florida IFAS Extension''))]"

definition DEFAULT_Rotten_Pepper :: "(jsstring \<times> jsval) list" where
  "DEFAULT_Rotten_Pepper =
     [(asc ''storage'', JStr (asc ''Do not store; discard immediately.'')),
      (asc ''shelf_life'', JNum (Fin 0)),
      (asc ''tips'', JStr (asc ''Peppers deteriorate quickly once soft spots appear. Mold spreads fast inside hollow vegetables.'')),
      (asc ''signs_of_spoilage'', JStr (asc ''Wrinkled or collapsing skin, soft watery areas, black spots, mold growth, sour or rotten odor'')),
      (asc ''status'', JStr (asc ''Rotten'')),
      (asc ''waste_disposal'', JStr (asc ''Compost only if there is no mold. If moldy, seal in a bag and discard in trash.'')),
      (asc ''storage_methods'', JArr []),
      (asc ''source'', JStr (asc ''USDA & Penn State Extension''))]"

definition DEFAULT_Rotten_Potato :: "(jsstring \<times> jsval) list" where
  "DEFAULT_Rotten_Potato =
     [(asc ''storage'', JStr (asc ''Do not store; discard immediately.'')),
      (asc ''shelf_life'', JNum (Fin 0)),
      (asc ''tips'', JStr (asc ''Rotten potatoes release toxic solanine gas, which can cause headaches and nausea in enclosed spaces.'')),
      (asc ''signs_of_spoilage'', JStr (asc ''Soft/mushy texture, foul sulfur-like odor, green coloration, sprouting with decay, black mold'')),
      (asc ''status'', JStr (asc ''Rotten'')),
      (asc ''waste_disposal'', JStr (asc ''Seal in a bag and discard in trash immediately. Do NOT compost rotten or moldy potatoes.'')),
      (asc ''storage_methods'', JArr []),
      (asc ''source'', JStr (asc ''USDA & University of Idaho Extension''))]"

definition DEFAULT_Rotten_Beef :: "(jsstring \<times> jsval) list" where
  "DEFAULT_Rotten_Beef =
     [(asc ''storage'', JStr (asc ''Do not store; discard immediately.'')),
      (asc ''shelf_life'', JNum (Fin 0)),
      (asc ''tips'', JStr (asc ''Rotten beef can harbor dangerous bacteria like Salmonella or E. coli. Avoid touching other foods with contaminated packaging.'')),
      (asc ''signs_of_spoilage'', JStr (asc ''Brown/green discoloration, sticky or slimy surface, strong sour or ammonia-like odor, mold patches'')),
      (asc ''status'', JStr (asc ''Rotten'')),
      (asc ''waste_disposal'', JStr (asc ''Double-bag before throwing into trash to prevent leaks and odors. Do not compost raw or spoiled meat.'')),
      (asc ''storage_methods'', JArr []),
      (asc ''source'', JStr (asc ''USDA Food Safety & Inspection Service''))]"

definition DEFAULT_Rotten_Chicken :: "(jsstring \<times> jsval) list" where
  "DEFAULT_Rotten_Chicken =
     [(asc ''storage'', JStr (asc ''Do not store; discard immediately to prevent bacterial contamination.'')),
      (asc ''shelf_life'', JNum (Fin 0)),
      (asc ''tips'', JStr (asc ''Raw chicken spoils rapidly. Even slight off-odors or sliminess indicate bacterial growth such as Salmonella or Campylobacter.'')),
      (asc ''signs_of_spoilage'', JStr (asc ''Sour or sulfur-like odor, sticky or slimy surface, gray/green discoloration, tacky texture'')),
      (asc ''status'', JStr (asc ''Rotten'')),
      (asc ''waste_disposal'', JStr (asc ''Seal securely in bags and dispose in an outdoor trash bin. Never compost rotten meat.'')),
      (asc ''storage_methods'', JArr []),
      (asc ''source'', JStr (asc ''USDA Food Safety & Inspection Service''))]"

definition DEFAULT_Rotten_Pork :: "(jsstring \<times> jsval) list" where
  "DEFAULT_Rotten_Pork =
     [(asc ''storage'', JStr (asc ''Do not store; discard immediately to prevent bacterial contamination.'')),
      (asc ''shelf_life'', JNum (Fin 0)),
      (asc ''tips'', JStr (asc ''Rotten pork can harbor harmful bacteria like Salmonella, Listeria, and E. coli. Even slight odor changes indicate spoilage.'')),
      (asc ''signs_of_spoilage'', JStr (asc ''Sour or ammonia-like smell, sticky or slimy texture, gray/green discoloration, tacky surface'')),
      (asc ''status'', JStr (asc ''Rotten'')),
      (asc ''waste_disposal'', JStr (asc ''Seal tightly in double bags and dispose in an outdoor trash bin. Never compost rotten meat.'')),
      (asc ''storage_methods'', JArr []),
      (asc ''source'', JStr (asc ''USDA Food Safety & Inspection Service''))]"

definition DEFAULT_STORAGE_DATA :: "(jsstring \<times> jsval) list" where
  "DEFAULT_STORAGE_DATA =
     [(asc ''Fresh_Apple'', JObj DEFAULT_Fresh_Apple),
      (asc ''Fresh_Banana'', JObj DEFAULT_Fresh_Banana),
      (asc ''Fresh_Orange'', JObj DEFAULT_Fresh_Orange),
      (asc ''Fresh_Manggo'', JObj DEFAULT_Fresh_Manggo),
      (asc ''Fresh_Strawberry'', JObj DEFAULT_Fresh_Strawberry),
      (asc ''Fresh_Potato'', JObj DEFAULT_Fresh_Potato),
      (asc ''Fresh_Carrot'', JObj DEFAULT_Fresh_Carrot),
      (asc ''Fresh_Pepper'', JObj DEFAULT_Fresh_Pepper),
      (asc ''Fresh_Cucumber'', JObj DEFAULT_Fresh_Cucumber),
      (asc ''Fresh_Okra'', JObj DEFAULT_Fresh_Okra),
      (asc ''Fresh_Beef'', JObj DEFAULT_Fresh_Beef),
      (asc ''Fresh_Chicken'', JObj DEFAULT_Fresh_Chicken),
      (asc ''Fresh_Pork'', JObj DEFAULT_Fresh_Pork),
      (asc ''Rotten_Apple'', JObj DEFAULT_Rotten_Apple),
      (asc ''Rotten_Banana'', JObj DEFAULT_Rotten_Banana),
      (asc ''Rotten_Orange'', JObj DEFAULT_Rotten_Orange),
      (asc ''Rotten_Manggo'', JObj DEFAULT_Rotten_Manggo),
      (asc ''Rotten_Strawberry'', JObj DEFAULT_Rotten_Strawberry),
      (asc ''Rotten_Carrot'', JObj DEFAULT_Rotten_Carrot),
      (asc ''Rotten_Cucumber'', JObj DEFAULT_Rotten_Cucumber),
      (asc ''Rotten_Okra'', JObj DEFAULT_Rotten_Okra),
      (asc ''Rotten_Pepper'', JObj DEFAULT_Rotten_Pepper),
      (asc ''Rotten_Potato'', JObj DEFAULT_Rotten_Potato),
      (asc ''Rotten_Beef'', JObj DEFAULT_Rotten_Beef),
      (asc ''Rotten_Chicken'', JObj DEFAULT_Rotten_Chicken),
      (asc ''Rotten_Pork'', JObj DEFAULT_Rotten_Pork)]"

section \<open>Storage lookup (storageService.js)\<close>

text \<open>
  \<open>storageData\<close> is the active dataset of the service: the parsed override file, or the
  built-in table when there is none.  It is taken to be an object.  The \<open>entry\<close> variable
  of \<open>getStorageData\<close> is \<open>None\<close> while it is \<open>null\<close>.
\<close>

definition find_entry :: "obj \<Rightarrow> jsstring \<Rightarrow> jsval option" where
  "find_entry storageData normalized =
     (let scan = map_option snd
            (find (\<lambda>(key, value). toLowerCase key = toLowerCase normalized) storageData)
      in case obj_get storageData normalized of
           Some v \<Rightarrow> if truthy v then Some v else scan
         | None \<Rightarrow> scan)"

definition merge_entry :: "jsval \<Rightarrow> jsstring \<Rightarrow> jsval" where
  "merge_entry entry normalized =
     (let defaultEntry =
            (case obj_get DEFAULT_STORAGE_DATA normalized of
               Some d \<Rightarrow> if truthy d then d else JObj []
             | None \<Rightarrow> JObj [])
      in JObj (object_literal
           (own_props defaultEntry @ own_props entry @
            [(asc ''storage_methods'',
                or_else (nullish (field entry (asc ''storage_methods''))
                                 (field defaultEntry (asc ''storage_methods''))) (JArr [])),
             (asc ''ripeness_guide'',
                or_else (nullish (field entry (asc ''ripeness_guide''))
                                 (field defaultEntry (asc ''ripeness_guide''))) (JObj [])),
             (asc ''preparation_tips'',
                or_else (nullish (field entry (asc ''preparation_tips''))
                                 (field defaultEntry (asc ''preparation_tips''))) (JObj [])),
             (asc ''source'',
                or_else (nullish (field entry (asc ''source''))
                                 (field defaultEntry (asc ''source''))) (JStr (asc ''Unknown'')))])))"

text \<open>The argument is \<open>None\<close> when the caller passes \<open>undefined\<close> or nothing.\<close>

definition getStorageData :: "obj \<Rightarrow> jsval option \<Rightarrow> jsval" where
  "getStorageData storageData itemName =
     (case itemName of
        None \<Rightarrow> JObj storageData
      | Some JNull \<Rightarrow> JObj storageData
      | Some (JStr s) \<Rightarrow>
          if s = [] then JNull
          else
            (let normalized = normalizeLabel s
             in case find_entry storageData normalized of
                  Some entry \<Rightarrow> if truthy entry then merge_entry entry normalized else JNull
                | None \<Rightarrow> JNull)
      | Some _ \<Rightarrow> JNull)"

section \<open>Detections\<close>

definition CLASS_NAMES :: "jsstring list" where
  "CLASS_NAMES = map asc
     [''Fresh_Apple'', ''Fresh_Banana'', ''Fresh_Beef'', ''Fresh_Carrot'', ''Fresh_Chicken'',
      ''Fresh_Cucumber'', ''Fresh_Manggo'', ''Fresh_Okra'', ''Fresh_Orange'', ''Fresh_Pepper'',
      ''Fresh_Pork'', ''Fresh_Potato'', ''Fresh_Strawberry'',
      ''Rotten_Apple'', ''Rotten_Banana'', ''Rotten_Beef'', ''Rotten_Carrot'', ''Rotten_Chicken'',
      ''Rotten_Cucumber'', ''Rotten_Manggo'', ''Rotten_Okra'', ''Rotten_Orange'', ''Rotten_Pepper'',
      ''Rotten_Pork'', ''Rotten_Potato'', ''Rotten_Strawberry'']"

text \<open>
  The detection object of \<open>ImageProcessor.postprocess\<close>; its fields \<open>x\<close> and \<open>y\<close>
  are \<open>box_x\<close> and \<open>box_y\<close> here.  \<open>class_id\<close> is \<open>None\<close> for \<open>null\<close>.
\<close>

record detection =
  box_x :: jsnum
  box_y :: jsnum
  width :: jsnum
  height :: jsnum
  confidence :: jsnum
  class_id :: "int option"
  label :: jsstring
  storage_info :: jsval

text \<open>A read of the typed array; past its end the read is \<open>undefined\<close>, which every
  use below converts to \<open>NaN\<close>.\<close>

definition rd :: "jsnum list \<Rightarrow> nat \<Rightarrow> jsnum" where
  "rd data i = (if i < length data then data ! i else NaN)"

text \<open>The guarded mapping of the best class to a label, and the pushed object.\<close>

definition class_label :: "int option \<Rightarrow> jsstring" where
  "class_label bestClass =
     (case bestClass of
        None \<Rightarrow> asc ''Unknown_'' @ asc ''na''
      | Some k \<Rightarrow>
          if k < 0 \<or> k \<ge> int (length CLASS_NAMES) then asc ''Unknown_'' @ dec_int k
          else CLASS_NAMES ! nat k)"

definition unknown_storage_info :: jsval where
  "unknown_storage_info = JObj
     [(asc ''storage'', JStr (asc ''Unknown'')),
      (asc ''shelf_life'', JNull),
      (asc ''tips'', JStr (asc ''No data available'')),
      (asc ''status'', JStr (asc ''Unknown''))]"

definition push_detection ::
  "obj \<Rightarrow> jsnum \<Rightarrow> jsnum \<Rightarrow> jsnum \<Rightarrow> jsnum \<Rightarrow> jsnum \<Rightarrow> int option \<Rightarrow> detection" where
  "push_detection storageData x y w h conf bestClass =
     (let label = class_label bestClass;
          storageInfo = getStorageData storageData (Some (JStr label))
      in \<lparr>box_x = x, box_y = y, width = w, height = h, confidence = conf,
          class_id = bestClass, label = label,
          storage_info = (if truthy storageInfo then storageInfo else unknown_storage_info)\<rparr>)"

section \<open>Non-maximum suppression (ImageProcessor.nonMaxSuppression)\<close>

definition iou :: "detection \<Rightarrow> detection \<Rightarrow> jsnum" where
  "iou a b =
     (let xA = js_max (box_x a) (box_x b);
          yA = js_max (box_y a) (box_y b);
          xB = js_min (js_add (box_x a) (width a)) (js_add (box_x b) (width b));
          yB = js_min (js_add (box_y a) (height a)) (js_add (box_y b) (height b));
          interArea = js_mul (js_max (Fin 0) (js_sub xB xA)) (js_max (Fin 0) (js_sub yB yA));
          boxAArea = js_mul (width a) (height a);
          boxBArea = js_mul (width b) (height b)
      in js_div interArea (js_sub (js_add boxAArea boxBArea) interArea))"

text \<open>
  \<open>boxes.sort((a, b) => b.confidence - a.confidence)\<close>: the sort is stable, and \<open>a\<close>
  goes behind \<open>b\<close> exactly when the comparator is positive.  The language fixes the
  result only when no confidence is \<open>NaN\<close>.
\<close>

fun insert_desc :: "detection \<Rightarrow> detection list \<Rightarrow> detection list" where
  "insert_desc a [] = [a]"
| "insert_desc a (b # bs) =
     (if js_gt (js_sub (confidence b) (confidence a)) (Fin 0) then b # insert_desc a bs
      else a # b # bs)"

definition sort_desc :: "detection list \<Rightarrow> detection list" where
  "sort_desc boxes = foldr insert_desc boxes []"

text \<open>The \<open>while\<close> loop: shift the first box into \<open>selected\<close>, filter the rest.\<close>

fun nms_loop :: "jsnum \<Rightarrow> detection list \<Rightarrow> detection list" where
  "nms_loop threshold [] = []"
| "nms_loop threshold (current # boxes) =
     current # nms_loop threshold (filter (\<lambda>b. js_lt (iou current b) threshold) boxes)"

definition nonMaxSuppression :: "detection list \<Rightarrow> jsnum \<Rightarrow> detection list" where
  "nonMaxSuppression boxes threshold =
     (if boxes = [] then [] else nms_loop threshold (sort_desc boxes))"

section \<open>Boxes for the examples\<close>

text \<open>The overlap of the intervals \<open>[p, p + s]\<close> and \<open>[q, q + t]\<close>, and a detection with finite
  coordinates.\<close>

definition overlap :: "real \<Rightarrow> real \<Rightarrow> real \<Rightarrow> real \<Rightarrow> real" where
  "overlap p s q t = max 0 (min (p + s) (q + t) - max p q)"

definition example_box :: "real \<Rightarrow> real \<Rightarrow> real \<Rightarrow> real \<Rightarrow> real \<Rightarrow> detection" where
  "example_box x y w h c =
     \<lparr>box_x = Fin x, box_y = Fin y, width = Fin w, height = Fin h, confidence = Fin c,
      class_id = Some 0, label = asc ''Fresh_Apple'', storage_info = unknown_storage_info\<rparr>"

section \<open>Decoding the model output\<close>

text \<open>
  The output tensor: its flat \<open>data\<close> and its shape \<open>dims\<close>.  The two thresholds are
  module constants read from the environment (\<open>parseFloat(...) || 0.5\<close> and
  \<open>parseFloat(...) || 0.4\<close>); they are parameters here.
\<close>

record tensor =
  output_data :: "jsnum list"
  output_dims :: "nat list"

subsection \<open>Probabilistic scoring (imageProcessor.js)\<close>

definition sigmoid :: "jsnum \<Rightarrow> jsnum" where
  "sigmoid v = js_div (Fin 1) (js_add (Fin 1) (js_exp (js_neg v)))"

definition softmax :: "jsnum list \<Rightarrow> jsnum list" where
  "softmax arr =
     (let mx = js_max_list arr;
          exps = map (\<lambda>v. js_exp (js_sub v mx)) arr;
          sum = foldl (\<lambda>s e. js_add s e) (Fin 0) exps
      in map (\<lambda>e. js_div e sum) exps)"

text \<open>The loop over \<open>k = 1 .. classProbs.length - 1\<close> that finds the best class.\<close>

definition best_class :: "jsnum list \<Rightarrow> nat \<times> jsnum" where
  "best_class classProbs =
     foldl (\<lambda>(bestClass, bestClassProb) k.
              if js_gt (classProbs ! k) bestClassProb then (k, classProbs ! k)
              else (bestClass, bestClassProb))
           (0, js_or0 (classProbs ! 0)) [1..<length classProbs]"

definition class_scores :: "jsnum list \<Rightarrow> nat \<Rightarrow> nat \<Rightarrow> jsnum list" where
  "class_scores data offset numAttributes =
     (let maxClassEntries = min (int numAttributes - 5) (int (length CLASS_NAMES))
      in map (\<lambda>j. rd data (offset + 5 + j)) [0..<nat maxClassEntries])"

text \<open>
  One iteration of the loop over the predictions: \<open>None\<close> when the row is skipped or
  falls below the threshold.  \<open>softmax\<close> cannot throw on at most 26 scores, so the
  \<open>catch\<close> branch is never taken.
\<close>

definition postprocess_row :: "obj \<Rightarrow> jsnum \<Rightarrow> jsnum list \<Rightarrow> nat \<Rightarrow> nat \<Rightarrow> detection option" where
  "postprocess_row storageData CONFIDENCE_THRESHOLD data numAttributes i =
     (let offset = i * numAttributes;
          x = rd data offset;
          y = rd data (offset + 1);
          w = rd data (offset + 2);
          h = rd data (offset + 3);
          conf = rd data (offset + 4);
          classScores = class_scores data offset numAttributes
      in if classScores = [] then None
         else
           (let classProbs = softmax classScores;
                (bestClass, bestClassProb) = best_class classProbs;
                objectness = conf;
                objProb = (if isFinite objectness then sigmoid objectness else Fin 0);
                finalConf = js_mul objProb (js_or0 bestClassProb);
                finalConf = js_max (Fin 0) (js_min (Fin 1) finalConf)
            in if js_ge finalConf CONFIDENCE_THRESHOLD
               then Some (push_detection storageData x y w h finalConf (Some (int bestClass)))
               else None))"

text \<open>With fewer than three dimensions a bound of the loops is \<open>undefined\<close> and no row
  yields a detection.\<close>

definition postprocess :: "obj \<Rightarrow> jsnum \<Rightarrow> jsnum \<Rightarrow> tensor \<Rightarrow> detection list" where
  "postprocess storageData CONFIDENCE_THRESHOLD NMS_THRESHOLD out =
     (if length (output_dims out) < 3 then nonMaxSuppression [] NMS_THRESHOLD
      else
        (let numPredictions = output_dims out ! 1;
             numAttributes = output_dims out ! 2;
             detections = List.map_filter
               (postprocess_row storageData CONFIDENCE_THRESHOLD (output_data out) numAttributes)
               [0..<numPredictions]
         in nonMaxSuppression detections NMS_THRESHOLD))"

subsection \<open>Raw scoring, first variant (part\_003)\<close>

text \<open>The loop over the class entries: \<open>bestClass\<close> starts as \<open>null\<close>, \<open>bestScore\<close> as 0.\<close>

definition best_class_part_003 :: "jsnum list \<Rightarrow> nat \<Rightarrow> nat \<Rightarrow> int option \<times> jsnum" where
  "best_class_part_003 data offset numAttributes =
     (let maxClassEntries = min (int numAttributes - 5) (int (length CLASS_NAMES))
      in foldl (\<lambda>(bestClass, bestScore) j.
                  let score = rd data (offset + 5 + j)
                  in if js_gt score bestScore then (Some (int j), score)
                     else (bestClass, bestScore))
               (None, Fin 0) [0..<nat maxClassEntries])"

definition postprocess_row_part_003 ::
  "obj \<Rightarrow> jsnum \<Rightarrow> jsnum list \<Rightarrow> nat \<Rightarrow> nat \<Rightarrow> detection option" where
  "postprocess_row_part_003 storageData CONFIDENCE_THRESHOLD data numAttributes i =
     (let offset = i * numAttributes;
          x = rd data offset;
          y = rd data (offset + 1);
          w = rd data (offset + 2);
          h = rd data (offset + 3);
          conf = rd data (offset + 4)
      in if js_ge conf CONFIDENCE_THRESHOLD
         then
           (let (bestClass, bestScore) = best_class_part_003 data offset numAttributes
            in Some (push_detection storageData x y w h conf bestClass))
         else None)"

definition postprocess_part_003 :: "obj \<Rightarrow> jsnum \<Rightarrow> jsnum \<Rightarrow> tensor \<Rightarrow> detection list" where
  "postprocess_part_003 storageData CONFIDENCE_THRESHOLD NMS_THRESHOLD out =
     (if length (output_dims out) < 3 then nonMaxSuppression [] NMS_THRESHOLD
      else
        (let numPredictions = output_dims out ! 1;
             numAttributes = output_dims out ! 2;
             detections = List.map_filter
               (postprocess_row_part_003 storageData CONFIDENCE_THRESHOLD (output_data out) numAttributes)
               [0..<numPredictions]
         in nonMaxSuppression detections NMS_THRESHOLD))"

subsection \<open>Raw scoring, second variant (part\_001)\<close>

text \<open>
  \<open>score.toFixed(2)\<close> is a string.  \<open>Fixed2 neg n\<close> stands for the decimal string of
  \<open>n / 100\<close> with two fraction digits, after a minus sign when \<open>neg\<close>, which
  \<open>fixed2_text\<close> spells out; \<open>Plain v\<close> stands for \<open>String(v)\<close>, which \<open>toFixed\<close>
  returns for a number that is not finite or not below \<open>10^21\<close> in size.
\<close>

datatype numstr = Fixed2 bool nat | Plain jsnum

definition toFixed2 :: "jsnum \<Rightarrow> numstr" where
  "toFixed2 v =
     (case v of
        Fin r \<Rightarrow> if \<bar>r\<bar> < 10 ^ 21 then Fixed2 (r < 0) (nat \<lfloor>\<bar>r\<bar> * 100 + 1 / 2\<rfloor>) else Plain v
      | _ \<Rightarrow> Plain v)"

definition fixed2_text :: "bool \<Rightarrow> nat \<Rightarrow> jsstring" where
  "fixed2_text neg n =
     (if neg then [45] else []) @ dec_nat (n div 100) @ [46, 48 + n mod 100 div 10, 48 + n mod 10]"

text \<open>The pushed object \<open>{className, confidence, bbox}\<close>; its \<open>confidence\<close> is
  \<open>confidence_fixed\<close> here.\<close>

record detection_part_001 =
  className :: jsstring
  confidence_fixed :: numstr
  bbox :: "jsnum list"

definition best_class_part_001 :: "jsnum list \<Rightarrow> nat \<Rightarrow> jsnum \<times> int" where
  "best_class_part_001 outputData offset =
     foldl (\<lambda>(bestScore, bestClass) j.
              if js_gt (rd outputData (offset + j)) bestScore
              then (rd outputData (offset + j), int j - 5)
              else (bestScore, bestClass))
           (Fin 0, - 1) [5..<5 + length CLASS_NAMES]"

definition postprocess_row_part_001 :: "jsnum list \<Rightarrow> jsnum \<Rightarrow> nat \<Rightarrow> detection_part_001 option" where
  "postprocess_row_part_001 outputData threshold i =
     (let offset = i * (5 + length CLASS_NAMES);
          x = rd outputData offset;
          y = rd outputData (offset + 1);
          w = rd outputData (offset + 2);
          h = rd outputData (offset + 3);
          objectness = rd outputData (offset + 4);
          (bestScore, bestClass) = best_class_part_001 outputData offset;
          score = js_mul objectness bestScore
      in if js_gt score threshold
         then Some \<lparr>className =
                      (if 0 \<le> bestClass \<and> bestClass < int (length CLASS_NAMES)
                          \<and> CLASS_NAMES ! nat bestClass \<noteq> []
                       then CLASS_NAMES ! nat bestClass else asc ''Unknown''),
                    confidence_fixed = toFixed2 score,
                    bbox = [x, y, w, h]\<rparr>
         else None)"

text \<open>\<open>numDetections\<close> is the quotient \<open>outputData.length / 31\<close>, not rounded: the loop
  runs while \<open>i\<close> is below it.\<close>

definition postprocess_part_001 :: "jsnum list \<Rightarrow> jsnum \<Rightarrow> detection_part_001 list" where
  "postprocess_part_001 outputData threshold =
     List.map_filter (postprocess_row_part_001 outputData threshold)
       [0..<(length outputData + (4 + length CLASS_NAMES)) div (5 + length CLASS_NAMES)]"

section \<open>Notation for the statements about the decoders\<close>

text \<open>The 26 class entries that the loop of part\_001 reads for the row at \<open>offset\<close>.\<close>

definition class_scores_part_001 :: "jsnum list \<Rightarrow> nat \<Rightarrow> jsnum list" where
  "class_scores_part_001 outputData offset =
     map (\<lambda>j. rd outputData (offset + j)) [5..<5 + length CLASS_NAMES]"

text \<open>A row of 31 attributes for part\_001: a unit box, an objectness, the score of class 0,
  and 25 scores that are zero.\<close>

definition row_part_001 :: "real \<Rightarrow> real \<Rightarrow> jsnum list" where
  "row_part_001 objectness score0 =
     [Fin 0, Fin 0, Fin 1, Fin 1, Fin objectness, Fin score0,
      Fin 0, Fin 0, Fin 0, Fin 0, Fin 0, Fin 0, Fin 0, Fin 0, Fin 0, Fin 0, Fin 0, Fin 0, Fin 0,
      Fin 0, Fin 0, Fin 0, Fin 0, Fin 0, Fin 0, Fin 0, Fin 0, Fin 0, Fin 0, Fin 0, Fin 0]"

text \<open>
  The logistic sigmoid and the softmax with the maximum subtracted, on real numbers, as
  the specification words them; the decoder is compared with them below.
\<close>

definition spec_sigmoid :: "real \<Rightarrow> real" where
  "spec_sigmoid v = 1 / (1 + exp (- v))"


text \<open>A tensor of two rows that differ only in the place of their box, which has zero width.\<close>

definition two_flat_rows :: tensor where
  "two_flat_rows =
     \<lparr>output_data = [Fin 0, Fin 0, Fin 0, Fin 1, Fin 5, Fin 2,
                     Fin 5, Fin 5, Fin 0, Fin 1, Fin 5, Fin 2],
      output_dims = [1, 2, 6]\<rparr>"

section \<open>Notation for the statements about normalizeLabel\<close>

text \<open>
  The steps of \<open>normalizeLabel\<close> after the trim, each under a name: the rewriting of the
  prefix, and the capitalisation of the second segment.  \<open>ascii\<close> holds of a string of
  code units below 128; \<open>trimmed\<close> of a string that neither starts nor ends with white
  space.
\<close>

definition capitalize :: "jsstring \<Rightarrow> jsstring" where
  "capitalize p = toUpperCase (take 1 p) @ toLowerCase (drop 1 p)"

definition fix_prefix :: "jsstring \<Rightarrow> jsstring" where
  "fix_prefix formatted =
     (if startsWith (toLowerCase formatted) (asc ''fresh_'')
      then asc ''Fresh_'' @ drop 6 formatted
      else if startsWith (toLowerCase formatted) (asc ''rotten_'')
      then asc ''Rotten_'' @ drop 7 formatted
      else formatted)"

definition capitalize_second :: "jsstring \<Rightarrow> jsstring" where
  "capitalize_second formatted =
     (let parts = split_us formatted
      in if length parts > 1 then join_us (parts[1 := capitalize (parts ! 1)]) else formatted)"

definition ascii :: "jsstring \<Rightarrow> bool" where
  "ascii s = (\<forall>c\<in>set s. c < 128)"

definition trimmed :: "jsstring \<Rightarrow> bool" where
  "trimmed s = (s = [] \<or> (\<not> is_space (hd s) \<and> \<not> is_space (last s)))"

section \<open>Storage lookup, earlier version\<close>

text \<open>
  The \<open>getStorageData\<close> of the second \<open>StorageService\<close> class in
  src/services/imageProcessor.js, which part\_004 repeats: it returns what it finds, and the
  value of the first key that matches without regard to case even when that value is falsy.
\<close>

definition getStorageData_legacy :: "obj \<Rightarrow> jsval option \<Rightarrow> jsval" where
  "getStorageData_legacy storageData itemName =
     (case itemName of
        None \<Rightarrow> JObj storageData
      | Some JNull \<Rightarrow> JObj storageData
      | Some (JStr s) \<Rightarrow>
          if s = [] then JNull
          else
            (let normalized = normalizeLabel s
             in case obj_get storageData normalized of
                  Some v \<Rightarrow>
                    if truthy v then v
                    else (case find (\<lambda>(key, value). toLowerCase key = toLowerCase normalized) storageData of
                            Some (key, value) \<Rightarrow> value
                          | None \<Rightarrow> JNull)
                | None \<Rightarrow>
                    (case find (\<lambda>(key, value). toLowerCase key = toLowerCase normalized) storageData of
                       Some (key, value) \<Rightarrow> value
                     | None \<Rightarrow> JNull))
      | Some _ \<Rightarrow> JNull)"

section \<open>Notation for the statements about the lookup\<close>

text \<open>
  The \<open>defaultEntry\<close> of \<open>getStorageData\<close>, the four fields that the merged object
  writes after the two spreads, and the value each of them gets when neither record has
  one.  Then an override dataset for the examples: one record for \<open>Fresh_Apple\<close> that
  lacks only the field \<open>source\<close>.
\<close>

definition default_entry :: "jsstring \<Rightarrow> jsval" where
  "default_entry normalized =
     (case obj_get DEFAULT_STORAGE_DATA normalized of
        Some d \<Rightarrow> if truthy d then d else JObj []
      | None \<Rightarrow> JObj [])"

definition backfilled_fields :: "jsstring list" where
  "backfilled_fields =
     [asc ''storage_methods'', asc ''ripeness_guide'', asc ''preparation_tips'', asc ''source'']"

definition fallback :: "jsstring \<Rightarrow> jsval" where
  "fallback f =
     (if f = asc ''storage_methods'' then JArr []
      else if f = asc ''source'' then JStr (asc ''Unknown'')
      else JObj [])"

definition override_record :: obj where
  "override_record =
     [(asc ''storage'', JStr (asc ''Pantry'')),
      (asc ''shelf_life'', JNum (Fin 3)),
      (asc ''tips'', JStr (asc ''Eat soon'')),
      (asc ''signs_of_spoilage'', JStr (asc ''Soft spots'')),
      (asc ''status'', JStr (asc ''Fresh'')),
      (asc ''waste_disposal'', JNull),
      (asc ''storage_methods'', JArr [])]"

definition override_example :: obj where
  "override_example = [(asc ''Fresh_Apple'', JObj override_record)]"

text \<open>
  The record of \<open>Fresh_Apple\<close> in the built-in table of the earlier version, and an
  override dataset whose record for that label lacks the field \<open>tips\<close>.
\<close>

definition DEFAULT_Fresh_Apple_legacy :: obj where
  "DEFAULT_Fresh_Apple_legacy =
     [(asc ''storage'', JStr (asc ''Refrigerate in crisper drawer'')),
      (asc ''shelf_life'', JNum (Fin 14)),
      (asc ''tips'', JStr (asc ''Store away from other fruits to prevent ripening'')),
      (asc ''signs_of_spoilage'', JStr (asc ''Soft spots, mold, wrinkled skin'')),
      (asc ''status'', JStr (asc ''Fresh'')),
      (asc ''waste_disposal'', JNull)]"

definition override_without_tips :: obj where
  "override_without_tips =
     [(asc ''Fresh_Apple'',
       JObj [(asc ''storage'', JStr (asc ''Pantry'')), (asc ''status'', JStr (asc ''Fresh''))])]"

section \<open>Facts about numbers and about the suppression loop\<close>

lemma confidence_push_detection [simp]: "confidence (push_detection sd x y w h c b) = c"
  by (simp add: push_detection_def Let_def)

lemma class_id_push_detection [simp]: "class_id (push_detection sd x y w h c b) = b"
  by (simp add: push_detection_def Let_def)

lemma label_push_detection [simp]: "label (push_detection sd x y w h c b) = class_label b"
  by (simp add: push_detection_def Let_def)

lemma box_push_detection [simp]:
  "box_x (push_detection sd x y w h c b) = x"
  "box_y (push_detection sd x y w h c b) = y"
  "width (push_detection sd x y w h c b) = w"
  "height (push_detection sd x y w h c b) = h"
  by (simp_all add: push_detection_def Let_def)

lemma length_CLASS_NAMES: "length CLASS_NAMES = 26"
  by (simp add: CLASS_NAMES_def)

lemma sigmoid_Fin: "sigmoid (Fin v) = Fin (spec_sigmoid v)"
proof -
  have "1 + exp (- v) \<noteq> 0"
    using exp_gt_zero[of "- v"] by linarith
  then show ?thesis by (simp add: sigmoid_def spec_sigmoid_def)
qed

lemma set_insert_desc: "set (insert_desc a bs) = insert a (set bs)"
  by (induction bs) auto

lemma set_sort_desc: "set (sort_desc bs) = set bs"
  unfolding sort_desc_def by (induction bs) (auto simp: set_insert_desc)

lemma nms_loop_subseq: "subseq (nms_loop t bs) bs"
proof (induction t bs rule: nms_loop.induct)
  case (1 t)
  then show ?case by simp
next
  case (2 t c bs)
  have "subseq (filter (\<lambda>b. js_lt (iou c b) t) bs) bs" by simp
  with 2 have "subseq (nms_loop t (filter (\<lambda>b. js_lt (iou c b) t) bs)) bs"
    using subseq_order.order_trans by blast
  then show ?case by simp
qed

lemma nms_loop_set: "set (nms_loop t bs) \<subseteq> set bs"
  using nms_loop_subseq[of t bs] by (auto dest: list_emb_set)

lemma nms_loop_pairwise: "sorted_wrt (\<lambda>a b. js_lt (iou a b) t) (nms_loop t bs)"
proof (induction t bs rule: nms_loop.induct)
  case (1 t)
  then show ?case by simp
next
  case (2 t c bs)
  have "set (nms_loop t (filter (\<lambda>b. js_lt (iou c b) t) bs)) \<subseteq> {b. js_lt (iou c b) t}"
    using nms_loop_set[of t "filter (\<lambda>b. js_lt (iou c b) t) bs"] by auto
  with 2 show ?case by auto
qed

lemma nms_loop_append:
  "nms_loop t (xs @ ys) =
     nms_loop t xs @ nms_loop t (filter (\<lambda>b. \<forall>s\<in>set (nms_loop t xs). js_lt (iou s b) t) ys)"
proof (induction t xs arbitrary: ys rule: nms_loop.induct)
  case (1 t)
  then show ?case by simp
next
  case (2 t c bs)
  have "nms_loop t ((c # bs) @ ys) =
        c # nms_loop t (filter (\<lambda>b. js_lt (iou c b) t) bs @ filter (\<lambda>b. js_lt (iou c b) t) ys)"
    by simp
  also have "\<dots> = c # (nms_loop t (filter (\<lambda>b. js_lt (iou c b) t) bs) @
        nms_loop t (filter (\<lambda>b. \<forall>s\<in>set (nms_loop t (filter (\<lambda>b. js_lt (iou c b) t) bs)). js_lt (iou s b) t)
           (filter (\<lambda>b. js_lt (iou c b) t) ys)))"
    using 2[of "filter (\<lambda>b. js_lt (iou c b) t) ys"] by simp
  also have "filter (\<lambda>b. \<forall>s\<in>set (nms_loop t (filter (\<lambda>b. js_lt (iou c b) t) bs)). js_lt (iou s b) t)
           (filter (\<lambda>b. js_lt (iou c b) t) ys) =
        filter (\<lambda>b. \<forall>s\<in>set (nms_loop t (c # bs)). js_lt (iou s b) t) ys"
    by (auto intro: filter_cong)
  finally show ?case by simp
qed

lemma js_cmp_pos: "a \<noteq> NaN \<Longrightarrow> b \<noteq> NaN \<Longrightarrow> js_gt (js_sub b a) (Fin 0) = js_lt a b"
  by (cases a; cases b) (auto simp: js_gt_def js_sub_def)

lemma js_ge_total: "a \<noteq> NaN \<Longrightarrow> b \<noteq> NaN \<Longrightarrow> \<not> js_lt a b \<Longrightarrow> js_ge a b"
  by (simp add: js_ge_def)

lemma js_lt_ge: "js_lt a b \<Longrightarrow> js_ge b a"
  by (cases a; cases b) (auto simp: js_ge_def)

lemma js_ge_trans: "js_ge a b \<Longrightarrow> js_ge b c \<Longrightarrow> js_ge a c"
  by (cases a; cases b; cases c) (auto simp: js_ge_def)

lemma sorted_insert_desc:
  assumes "confidence a \<noteq> NaN" "\<forall>b\<in>set bs. confidence b \<noteq> NaN"
    and "sorted_wrt (\<lambda>a b. js_ge (confidence a) (confidence b)) bs"
  shows "sorted_wrt (\<lambda>a b. js_ge (confidence a) (confidence b)) (insert_desc a bs)"
  using assms
proof (induction bs)
  case Nil
  then show ?case by simp
next
  case (Cons b bs)
  show ?case
  proof (cases "js_lt (confidence a) (confidence b)")
    case True
    then have "js_ge (confidence b) (confidence a)" by (rule js_lt_ge)
    with Cons True show ?thesis
      by (auto simp: js_cmp_pos set_insert_desc)
  next
    case False
    then have ab: "js_ge (confidence a) (confidence b)"
      using Cons.prems by (simp add: js_ge_def)
    have "\<forall>c\<in>set bs. js_ge (confidence a) (confidence c)"
      using Cons.prems ab by (auto intro: js_ge_trans)
    with Cons False ab show ?thesis
      by (auto simp: js_cmp_pos)
  qed
qed

lemma sorted_sort_desc:
  "\<forall>b\<in>set bs. confidence b \<noteq> NaN \<Longrightarrow>
   sorted_wrt (\<lambda>a b. js_ge (confidence a) (confidence b)) (sort_desc bs)"
proof (induction bs)
  case Nil
  then show ?case by (simp add: sort_desc_def)
next
  case (Cons a bs)
  have "sort_desc (a # bs) = insert_desc a (sort_desc bs)" by (simp add: sort_desc_def)
  with Cons show ?case by (simp add: sorted_insert_desc set_sort_desc)
qed

lemma subseq_sorted_wrt: "subseq xs ys \<Longrightarrow> sorted_wrt P ys \<Longrightarrow> sorted_wrt P xs"
proof (induction rule: list_emb.induct)
  case (list_emb_Nil ys)
  then show ?case by simp
next
  case (list_emb_Cons xs ys y)
  then show ?case by simp
next
  case (list_emb_Cons2 x y xs ys)
  then have "set xs \<subseteq> set ys" by (auto dest: list_emb_set)
  with list_emb_Cons2 show ?case by auto
qed

lemma js_max_commute: "js_max a b = js_max b a"
  by (cases a; cases b) (auto simp: js_max_def)

lemma js_min_commute: "js_min a b = js_min b a"
  by (cases a; cases b) (auto simp: js_min_def)

lemma js_add_commute: "js_add a b = js_add b a"
  by (cases a; cases b) auto

lemma js_mul_commute: "js_mul a b = js_mul b a"
  by (cases a; cases b) (auto split: if_splits)

lemma iou_sym: "iou a b = iou b a"
  unfolding iou_def Let_def
  by (simp add: js_max_commute[of "box_x a"] js_max_commute[of "box_y a"]
      js_min_commute[of "js_add (box_x a) (width a)"] js_min_commute[of "js_add (box_y a) (height a)"]
      js_add_commute[of "js_mul (width a) (height a)"])

lemma js_max_Fin: "js_max (Fin a) (Fin b) = Fin (max a b)"
  by (simp add: js_max_def max_def)

lemma js_min_Fin: "js_min (Fin a) (Fin b) = Fin (min a b)"
  by (simp add: js_min_def min_def)

lemma js_sub_Fin: "js_sub (Fin a) (Fin b) = Fin (a - b)"
  by (simp add: js_sub_def)

lemma iou_finite:
  assumes "box_x a = Fin xa" "box_y a = Fin ya" "width a = Fin wa" "height a = Fin ha"
    and "box_x b = Fin xb" "box_y b = Fin yb" "width b = Fin wb" "height b = Fin hb"
  shows "iou a b =
     js_div (Fin (max 0 (min (xa + wa) (xb + wb) - max xa xb) * max 0 (min (ya + ha) (yb + hb) - max ya yb)))
            (Fin (wa * ha + wb * hb
               - max 0 (min (xa + wa) (xb + wb) - max xa xb) * max 0 (min (ya + ha) (yb + hb) - max ya yb)))"
  unfolding iou_def Let_def assms
  by (simp only: js_max_Fin js_min_Fin js_sub_Fin js_add.simps js_mul.simps)

lemma iou_example:
  "iou (example_box xa ya wa ha ca) (example_box xb yb wb hb cb) =
     js_div (Fin (overlap xa wa xb wb * overlap ya ha yb hb))
            (Fin (wa * ha + wb * hb - overlap xa wa xb wb * overlap ya ha yb hb))"
  unfolding overlap_def by (rule iou_finite) (simp_all add: example_box_def)

lemma nonMaxSuppression_loop: "nonMaxSuppression boxes threshold = nms_loop threshold (sort_desc boxes)"
  by (simp add: nonMaxSuppression_def sort_desc_def)

lemma nms_loop_snoc:
  "nms_loop t (pre @ [c]) =
     nms_loop t pre @ (if \<forall>s\<in>set (nms_loop t pre). js_lt (iou s c) t then [c] else [])"
  by (simp add: nms_loop_append[of t pre "[c]"])

lemma nms_loop_split:
  "nms_loop t (pre @ c # post) =
     nms_loop t (pre @ [c]) @
     nms_loop t (filter (\<lambda>b. \<forall>s\<in>set (nms_loop t (pre @ [c])). js_lt (iou s b) t) post)"
  using nms_loop_append[of t "pre @ [c]" post] by simp

lemma nms_loop_distinct_pairs:
  assumes "i < length (nms_loop t bs)" "j < length (nms_loop t bs)" "i \<noteq> j"
  shows "js_lt (iou (nms_loop t bs ! i) (nms_loop t bs ! j)) t"
proof (cases "i < j")
  case True
  with assms nms_loop_pairwise[of t bs] show ?thesis
    by (simp add: sorted_wrt_iff_nth_less)
next
  case False
  with assms have "j < i" by simp
  with assms nms_loop_pairwise[of t bs]
  have "js_lt (iou (nms_loop t bs ! j) (nms_loop t bs ! i)) t"
    by (simp add: sorted_wrt_iff_nth_less)
  then show ?thesis by (simp add: iou_sym[of "nms_loop t bs ! i"])
qed

section \<open>Non-maximum suppression: what is selected\<close>

text \<open>
  Claim C2, as the code has it.  The output of \<open>nonMaxSuppression\<close> is a subsequence of the
  input sorted by descending confidence, so a subset of the input; it is in descending
  order of confidence when no confidence is \<open>NaN\<close>; any two different positions of the
  output hold boxes whose IoU is strictly below the threshold, so no pair has an IoU above
  it; and the box \<open>c\<close> at a position of the sorted input is selected exactly when its IoU
  with every box selected before it is strictly below the threshold.  A box is therefore
  discarded when its IoU with an earlier selected box equals the threshold or is \<open>NaN\<close>,
  not only when it exceeds the threshold.
\<close>

theorem nonMaxSuppression_selection:
  "set (nonMaxSuppression boxes threshold) \<subseteq> set boxes
   \<and> subseq (nonMaxSuppression boxes threshold) (sort_desc boxes)
   \<and> ((\<forall>b\<in>set boxes. confidence b \<noteq> NaN) \<longrightarrow>
        sorted_wrt (\<lambda>a b. js_ge (confidence a) (confidence b)) (nonMaxSuppression boxes threshold))
   \<and> (\<forall>i j. i < length (nonMaxSuppression boxes threshold)
          \<and> j < length (nonMaxSuppression boxes threshold) \<and> i \<noteq> j \<longrightarrow>
          js_lt (iou (nonMaxSuppression boxes threshold ! i) (nonMaxSuppression boxes threshold ! j))
                threshold)
   \<and> (\<forall>pre c post. sort_desc boxes = pre @ c # post \<longrightarrow>
          nms_loop threshold (pre @ [c]) =
            nms_loop threshold pre @
            (if \<forall>s\<in>set (nms_loop threshold pre). js_lt (iou s c) threshold then [c] else [])
          \<and> nonMaxSuppression boxes threshold =
            nms_loop threshold (pre @ [c]) @
            nms_loop threshold
              (filter (\<lambda>b. \<forall>s\<in>set (nms_loop threshold (pre @ [c])). js_lt (iou s b) threshold) post))"
proof -
  let ?out = "nonMaxSuppression boxes threshold"
  have out: "?out = nms_loop threshold (sort_desc boxes)" by (rule nonMaxSuppression_loop)
  have sub: "subseq ?out (sort_desc boxes)" unfolding out by (rule nms_loop_subseq)
  then have "set ?out \<subseteq> set (sort_desc boxes)" by (auto dest: list_emb_set)
  then have s: "set ?out \<subseteq> set boxes" by (simp add: set_sort_desc)
  have srt: "(\<forall>b\<in>set boxes. confidence b \<noteq> NaN) \<longrightarrow>
        sorted_wrt (\<lambda>a b. js_ge (confidence a) (confidence b)) ?out"
    using sub sorted_sort_desc[of boxes] by (auto intro: subseq_sorted_wrt)
  have pw: "\<forall>i j. i < length ?out \<and> j < length ?out \<and> i \<noteq> j \<longrightarrow>
          js_lt (iou (?out ! i) (?out ! j)) threshold"
    unfolding out using nms_loop_distinct_pairs by blast
  have ch: "\<forall>pre c post. sort_desc boxes = pre @ c # post \<longrightarrow>
          nms_loop threshold (pre @ [c]) =
            nms_loop threshold pre @
            (if \<forall>s\<in>set (nms_loop threshold pre). js_lt (iou s c) threshold then [c] else [])
          \<and> ?out =
            nms_loop threshold (pre @ [c]) @
            nms_loop threshold
              (filter (\<lambda>b. \<forall>s\<in>set (nms_loop threshold (pre @ [c])). js_lt (iou s b) threshold) post)"
    unfolding out using nms_loop_snoc nms_loop_split by metis
  from s sub srt pw ch show ?thesis by blast
qed

theorem nonMaxSuppression_selection_witness:
  "sorted_wrt (\<lambda>a b. js_ge (confidence a) (confidence b))
     (nonMaxSuppression [example_box 0 0 1 1 (4/5), example_box 3 3 1 1 (9/10)] (Fin (2/5)))
   \<and> nonMaxSuppression [example_box 0 0 1 1 (4/5), example_box 3 3 1 1 (9/10)] (Fin (2/5))
      = [example_box 3 3 1 1 (9/10), example_box 0 0 1 1 (4/5)]"
proof -
  have s: "sort_desc [example_box 0 0 1 1 (4/5), example_box 3 3 1 1 (9/10)]
         = [] @ example_box 3 3 1 1 (9/10) # [example_box 0 0 1 1 (4/5)]"
    by (simp add: sort_desc_def js_gt_def js_sub_def example_box_def)
  have n: "\<forall>b\<in>set [example_box 0 0 1 1 (4/5), example_box 3 3 1 1 (9/10)]. confidence b \<noteq> NaN"
    by (simp add: example_box_def)
  have i: "iou (example_box 3 3 1 1 (9/10)) (example_box 0 0 1 1 (4/5)) = Fin 0"
    by (simp add: iou_example overlap_def)
  from nonMaxSuppression_selection
    [of "[example_box 0 0 1 1 (4/5), example_box 3 3 1 1 (9/10)]" "Fin (2/5)"] n s
  have a: "sorted_wrt (\<lambda>a b. js_ge (confidence a) (confidence b))
     (nonMaxSuppression [example_box 0 0 1 1 (4/5), example_box 3 3 1 1 (9/10)] (Fin (2/5)))"
   and b: "nonMaxSuppression [example_box 0 0 1 1 (4/5), example_box 3 3 1 1 (9/10)] (Fin (2/5)) =
            nms_loop (Fin (2/5)) ([] @ [example_box 3 3 1 1 (9/10)]) @
            nms_loop (Fin (2/5))
              (filter (\<lambda>b. \<forall>s\<in>set (nms_loop (Fin (2/5)) ([] @ [example_box 3 3 1 1 (9/10)])).
                 js_lt (iou s b) (Fin (2/5))) [example_box 0 0 1 1 (4/5)])"
    by blast+
  from b have "nonMaxSuppression [example_box 0 0 1 1 (4/5), example_box 3 3 1 1 (9/10)] (Fin (2/5))
      = [example_box 3 3 1 1 (9/10), example_box 0 0 1 1 (4/5)]"
    by (simp add: i)
  with a show ?thesis by simp
qed

text \<open>
  Two boxes whose IoU is exactly the threshold \<open>1/2\<close>: the IoU does not exceed the
  threshold, and the second box is discarded all the same.
\<close>

theorem nms_discards_at_threshold:
  "\<not> js_gt (iou (example_box 0 0 2 1 (9/10)) (example_box 0 0 1 1 (4/5))) (Fin (1/2))
   \<and> nonMaxSuppression [example_box 0 0 2 1 (9/10), example_box 0 0 1 1 (4/5)] (Fin (1/2))
       = [example_box 0 0 2 1 (9/10)]"
proof -
  have i: "iou (example_box 0 0 2 1 (9/10)) (example_box 0 0 1 1 (4/5)) = Fin (1/2)"
    by (simp add: iou_example overlap_def)
  have s: "sort_desc [example_box 0 0 2 1 (9/10), example_box 0 0 1 1 (4/5)]
         = [example_box 0 0 2 1 (9/10), example_box 0 0 1 1 (4/5)]"
    by (simp add: sort_desc_def js_gt_def js_sub_def example_box_def)
  show ?thesis
    by (simp add: nonMaxSuppression_def s i js_gt_def)
qed

section \<open>IoU of boxes without area\<close>

text \<open>
  Claim C5, as the code has it, for boxes with finite coordinates.  The IoU is the finite
  quotient of the intersection by the union whenever the union \<open>areaA + areaB - interArea\<close>
  is not zero; an overlap that is zero or negative in one dimension makes the intersection
  zero; and for a box \<open>a\<close> of zero width or zero height the IoU with \<open>b\<close>, in either
  order, is \<open>0\<close> when \<open>b\<close> has an area and \<open>NaN\<close> (the quotient \<open>0/0\<close>) when \<open>b\<close> has
  none.  With a positive threshold the filter \<open>iou < threshold\<close> thus keeps \<open>b\<close> exactly
  when \<open>b\<close> has an area: a box without area neither suppresses nor is suppressed by a box
  with an area, and it suppresses every later box without area, wherever that box lies.
\<close>

theorem iou_zero_dimension:
  assumes "box_x a = Fin xa" "box_y a = Fin ya" "width a = Fin wa" "height a = Fin ha"
    and "box_x b = Fin xb" "box_y b = Fin yb" "width b = Fin wb" "height b = Fin hb"
  shows "(overlap xa wa xb wb * overlap ya ha yb hb \<noteq> wa * ha + wb * hb \<longrightarrow>
           iou a b = Fin (overlap xa wa xb wb * overlap ya ha yb hb /
                          (wa * ha + wb * hb - overlap xa wa xb wb * overlap ya ha yb hb)))
       \<and> (min (xa + wa) (xb + wb) \<le> max xa xb \<or> min (ya + ha) (yb + hb) \<le> max ya yb \<longrightarrow>
           iou a b = js_div (Fin 0) (Fin (wa * ha + wb * hb)))
       \<and> (wa = 0 \<or> ha = 0 \<longrightarrow>
           iou a b = (if wb * hb = 0 then NaN else Fin 0)
           \<and> iou b a = iou a b
           \<and> (\<forall>t>0. js_lt (iou a b) (Fin t) = (wb * hb \<noteq> 0)))"
proof -
  let ?I = "overlap xa wa xb wb * overlap ya ha yb hb"
  have f: "iou a b = js_div (Fin ?I) (Fin (wa * ha + wb * hb - ?I))"
    unfolding overlap_def using assms by (rule iou_finite)
  have p1: "?I \<noteq> wa * ha + wb * hb \<longrightarrow> iou a b = Fin (?I / (wa * ha + wb * hb - ?I))"
    by (simp add: f)
  have p2: "min (xa + wa) (xb + wb) \<le> max xa xb \<or> min (ya + ha) (yb + hb) \<le> max ya yb \<longrightarrow>
           iou a b = js_div (Fin 0) (Fin (wa * ha + wb * hb))"
  proof
    assume "min (xa + wa) (xb + wb) \<le> max xa xb \<or> min (ya + ha) (yb + hb) \<le> max ya yb"
    then have "overlap xa wa xb wb = 0 \<or> overlap ya ha yb hb = 0"
      by (auto simp: overlap_def)
    then have "?I = 0" by auto
    then show "iou a b = js_div (Fin 0) (Fin (wa * ha + wb * hb))" by (simp add: f)
  qed
  have p3: "wa = 0 \<or> ha = 0 \<longrightarrow>
           iou a b = (if wb * hb = 0 then NaN else Fin 0)
           \<and> iou b a = iou a b
           \<and> (\<forall>t>0. js_lt (iou a b) (Fin t) = (wb * hb \<noteq> 0))"
  proof
    assume z: "wa = 0 \<or> ha = 0"
    then have "overlap xa wa xb wb = 0 \<or> overlap ya ha yb hb = 0"
      by (auto simp: overlap_def)
    then have I0: "?I = 0" by auto
    from z have A0: "wa * ha = 0" by auto
    have v: "iou a b = (if wb * hb = 0 then NaN else Fin 0)"
      unfolding f I0 A0 by simp
    then have "\<forall>t>0. js_lt (iou a b) (Fin t) = (wb * hb \<noteq> 0)" by simp
    with v show "iou a b = (if wb * hb = 0 then NaN else Fin 0)
           \<and> iou b a = iou a b
           \<and> (\<forall>t>0. js_lt (iou a b) (Fin t) = (wb * hb \<noteq> 0))"
      using iou_sym[of b a] by simp
  qed
  from p1 p2 p3 show ?thesis by blast
qed

theorem iou_zero_dimension_witness:
  "iou (example_box 0 0 0 1 (9/10)) (example_box 0 0 2 2 (4/5)) = Fin 0
   \<and> js_lt (iou (example_box 0 0 0 1 (9/10)) (example_box 0 0 2 2 (4/5))) (Fin (2/5))
   \<and> iou (example_box 1 1 2 2 (9/10)) (example_box 2 2 2 2 (4/5)) = Fin (1/7)"
proof -
  have z: "(0::real) = 0 \<or> (1::real) = 0" by simp
  have t: "(0::real) < 2/5" by simp
  have ne: "overlap 1 2 2 2 * overlap 1 2 2 2 \<noteq> (2::real) * 2 + 2 * 2"
    by (simp add: overlap_def)
  from iou_zero_dimension[of "example_box 0 0 0 1 (9/10)" 0 0 0 1 "example_box 0 0 2 2 (4/5)" 0 0 2 2] z t
  have a: "iou (example_box 0 0 0 1 (9/10)) (example_box 0 0 2 2 (4/5)) = Fin 0
       \<and> js_lt (iou (example_box 0 0 0 1 (9/10)) (example_box 0 0 2 2 (4/5))) (Fin (2/5))"
    by (simp add: example_box_def)
  from iou_zero_dimension[of "example_box 1 1 2 2 (9/10)" 1 1 2 2 "example_box 2 2 2 2 (4/5)" 2 2 2 2] ne
  have "iou (example_box 1 1 2 2 (9/10)) (example_box 2 2 2 2 (4/5)) = Fin (1/7)"
    by (simp add: example_box_def overlap_def)
  with a show ?thesis by simp
qed

lemma postprocess_two_flat_rows:
  "map (\<lambda>d. (box_x d, box_y d, width d, height d))
       (postprocess [] (Fin (1/2)) (Fin (2/5)) two_flat_rows) = [(Fin 0, Fin 0, Fin 0, Fin 1)]"
proof -
  let ?data = "output_data two_flat_rows"
  define q where "q = spec_sigmoid 5"
  have q: "1/2 \<le> q" "q < 1"
  proof -
    have b: "1/2 \<le> 1 / (1 + e) \<and> 1 / (1 + e) < 1" if "0 < e" "e < 1" for e :: real
      using that by (simp add: field_simps)
    have "0 < exp (- 5 :: real)" "exp (- 5 :: real) < 1" by simp_all
    from b[OF this] show "1/2 \<le> q" "q < 1" unfolding q_def spec_sigmoid_def by simp_all
  qed
  have sm: "softmax [Fin 2] = [Fin 1]"
    by (simp add: softmax_def js_max_list_def js_max_def js_sub_def)
  have cs0: "class_scores ?data (0 * 6) 6 = [Fin 2]" and cs1: "class_scores ?data (1 * 6) 6 = [Fin 2]"
    by (simp_all add: two_flat_rows_def class_scores_def length_CLASS_NAMES rd_def)
  have o: "js_or0 (Fin 1) = Fin 1" by (simp add: js_or0_def)
  have cl: "js_max (Fin 0) (js_min (Fin 1) (js_mul (Fin q) (Fin 1))) = Fin q"
    using q by (simp add: js_max_def js_min_def)
  have ge: "js_ge (Fin q) (Fin (1/2))" using q by (simp add: js_ge_def)
  have r0: "postprocess_row [] (Fin (1/2)) ?data 6 0
      = Some (push_detection [] (Fin 0) (Fin 0) (Fin 0) (Fin 1) (Fin q) (Some 0))"
    unfolding postprocess_row_def Let_def cs0 sm
    by (simp add: best_class_def two_flat_rows_def rd_def isFinite_def sigmoid_Fin q_def[symmetric] o cl ge
        del: js_mul.simps)
  have r1: "postprocess_row [] (Fin (1/2)) ?data 6 1
      = Some (push_detection [] (Fin 5) (Fin 5) (Fin 0) (Fin 1) (Fin q) (Some 0))"
    unfolding postprocess_row_def Let_def cs1 sm
    by (simp add: best_class_def two_flat_rows_def rd_def isFinite_def sigmoid_Fin q_def[symmetric] o cl ge
        del: js_mul.simps)
  let ?a = "push_detection [] (Fin 0) (Fin 0) (Fin 0) (Fin 1) (Fin q) (Some 0)"
  let ?b = "push_detection [] (Fin 5) (Fin 5) (Fin 0) (Fin 1) (Fin q) (Some 0)"
  have dets: "List.map_filter (postprocess_row [] (Fin (1/2)) ?data 6) [0..<2] = [?a, ?b]"
    using r0 r1 by (simp add: List.map_filter_def upt_conv_Cons)
  have i: "iou ?a ?b = NaN"
    using iou_finite[of ?a 0 0 0 1 ?b 5 5 0 1] by simp
  have s: "sort_desc [?a, ?b] = [?a, ?b]"
    by (simp add: sort_desc_def js_gt_def js_sub_def)
  have "postprocess [] (Fin (1/2)) (Fin (2/5)) two_flat_rows = [?a]"
    using dets by (simp add: postprocess_def two_flat_rows_def nonMaxSuppression_def s i)
  then show ?thesis by simp
qed

text \<open>
  Two boxes of zero width at different places: their IoU is \<open>NaN\<close>, and the first
  suppresses the second.  Such boxes reach the suppression: \<open>postprocess\<close> decodes the
  two rows of \<open>two_flat_rows\<close> into two detections and returns only the first.
\<close>

theorem zero_area_boxes_suppress_each_other:
  "iou (example_box 0 0 0 1 (9/10)) (example_box 5 5 0 1 (4/5)) = NaN
   \<and> nonMaxSuppression [example_box 0 0 0 1 (9/10), example_box 5 5 0 1 (4/5)] (Fin (2/5))
       = [example_box 0 0 0 1 (9/10)]
   \<and> map (\<lambda>d. (box_x d, box_y d, width d, height d))
         (postprocess [] (Fin (1/2)) (Fin (2/5)) two_flat_rows) = [(Fin 0, Fin 0, Fin 0, Fin 1)]"
proof -
  have i: "iou (example_box 0 0 0 1 (9/10)) (example_box 5 5 0 1 (4/5)) = NaN"
    by (simp add: iou_example overlap_def)
  have s: "sort_desc [example_box 0 0 0 1 (9/10), example_box 5 5 0 1 (4/5)]
         = [example_box 0 0 0 1 (9/10), example_box 5 5 0 1 (4/5)]"
    by (simp add: sort_desc_def js_gt_def js_sub_def example_box_def)
  have n: "nonMaxSuppression [example_box 0 0 0 1 (9/10), example_box 5 5 0 1 (4/5)] (Fin (2/5))
       = [example_box 0 0 0 1 (9/10)]"
    by (simp add: nonMaxSuppression_def s i)
  from i n postprocess_two_flat_rows show ?thesis by simp
qed

section \<open>The best-class loops\<close>

lemma js_lt_irrefl: "\<not> js_lt a a"
  by (cases a) auto

lemma js_lt_trans: "js_lt a b \<Longrightarrow> js_lt b c \<Longrightarrow> js_lt a c"
  by (cases a; cases b; cases c) auto

lemma running_max:
  assumes sc: "\<And>j. sc (mk j) = f j"
  shows "(foldl (\<lambda>st j. if js_gt (f j) (sc st) then mk j else st) st0 [m..<n] = st0
            \<and> (\<forall>j. m \<le> j \<and> j < n \<longrightarrow> \<not> js_gt (f j) (sc st0)))
         \<or> (\<exists>k. m \<le> k \<and> k < n
              \<and> foldl (\<lambda>st j. if js_gt (f j) (sc st) then mk j else st) st0 [m..<n] = mk k
              \<and> js_gt (f k) (sc st0)
              \<and> (\<forall>j. m \<le> j \<and> j < n \<longrightarrow> \<not> js_gt (f j) (f k))
              \<and> (\<forall>j. m \<le> j \<and> j < k \<longrightarrow> f j \<noteq> f k))"
proof (induction n)
  case 0
  then show ?case by simp
next
  case (Suc n)
  let ?F = "\<lambda>n. foldl (\<lambda>st j. if js_gt (f j) (sc st) then mk j else st) st0 [m..<n]"
  show ?case
  proof (cases "m \<le> n")
    case False
    then have "\<And>j. m \<le> j \<Longrightarrow> j < Suc n \<Longrightarrow> False" by arith
    with False show ?thesis by auto
  next
    case True
    then have step: "?F (Suc n) = (if js_gt (f n) (sc (?F n)) then mk n else ?F n)"
      by simp
    from Suc consider
      (init) "?F n = st0" "\<forall>j. m \<le> j \<and> j < n \<longrightarrow> \<not> js_gt (f j) (sc st0)"
      | (found) k where "m \<le> k" "k < n" "?F n = mk k" "js_gt (f k) (sc st0)"
          "\<forall>j. m \<le> j \<and> j < n \<longrightarrow> \<not> js_gt (f j) (f k)" "\<forall>j. m \<le> j \<and> j < k \<longrightarrow> f j \<noteq> f k"
      by blast
    then show ?thesis
    proof cases
      case init
      show ?thesis
      proof (cases "js_gt (f n) (sc st0)")
        case g: True
        have a: "\<forall>j. m \<le> j \<and> j < Suc n \<longrightarrow> \<not> js_gt (f j) (f n)"
        proof (intro allI impI)
          fix j assume j: "m \<le> j \<and> j < Suc n"
          show "\<not> js_gt (f j) (f n)"
          proof (cases "j = n")
            case True
            then show ?thesis by (simp add: js_gt_def js_lt_irrefl)
          next
            case False
            with j init have "\<not> js_gt (f j) (sc st0)" by simp
            with g show ?thesis unfolding js_gt_def using js_lt_trans by blast
          qed
        qed
        have b: "\<forall>j. m \<le> j \<and> j < n \<longrightarrow> f j \<noteq> f n"
          using init g by auto
        from True g init a b step show ?thesis by auto
      next
        case False
        with init step show ?thesis by (auto simp: less_Suc_eq)
      qed
    next
      case found
      show ?thesis
      proof (cases "js_gt (f n) (f k)")
        case g: True
        have g0: "js_gt (f n) (sc st0)"
          using g found(4) unfolding js_gt_def using js_lt_trans by blast
        have a: "\<forall>j. m \<le> j \<and> j < Suc n \<longrightarrow> \<not> js_gt (f j) (f n)"
        proof (intro allI impI)
          fix j assume j: "m \<le> j \<and> j < Suc n"
          show "\<not> js_gt (f j) (f n)"
          proof (cases "j = n")
            case True
            then show ?thesis by (simp add: js_gt_def js_lt_irrefl)
          next
            case False
            with j found have "\<not> js_gt (f j) (f k)" by simp
            with g show ?thesis unfolding js_gt_def using js_lt_trans by blast
          qed
        qed
        have b: "\<forall>j. m \<le> j \<and> j < n \<longrightarrow> f j \<noteq> f n"
          using found(5) g by auto
        from True g g0 found(3) a b step sc show ?thesis by auto
      next
        case False
        with found step sc have "?F (Suc n) = mk k" by simp
        moreover from False found(5)
        have "\<forall>j. m \<le> j \<and> j < Suc n \<longrightarrow> \<not> js_gt (f j) (f k)"
          by (auto simp: less_Suc_eq)
        ultimately show ?thesis using found by auto
      qed
    qed
  qed
qed

lemma length_class_scores:
  "length (class_scores data offset na) = nat (min (int na - 5) (int (length CLASS_NAMES)))"
  by (simp add: class_scores_def Let_def)

lemma nth_class_scores:
  "j < length (class_scores data offset na) \<Longrightarrow> class_scores data offset na ! j = rd data (offset + 5 + j)"
  by (simp add: class_scores_def Let_def)

lemma best_class_part_003_char:
  "(best_class_part_003 data offset na = (None, Fin 0)
      \<and> (\<forall>j<length (class_scores data offset na). \<not> js_gt (class_scores data offset na ! j) (Fin 0)))
   \<or> (\<exists>k<length (class_scores data offset na).
         best_class_part_003 data offset na = (Some (int k), class_scores data offset na ! k)
       \<and> js_gt (class_scores data offset na ! k) (Fin 0)
       \<and> (\<forall>j<length (class_scores data offset na).
             \<not> js_gt (class_scores data offset na ! j) (class_scores data offset na ! k))
       \<and> (\<forall>j<k. class_scores data offset na ! j \<noteq> class_scores data offset na ! k))"
proof -
  let ?n = "nat (min (int na - 5) (int (length CLASS_NAMES)))"
  let ?f = "\<lambda>j. rd data (offset + 5 + j)"
  let ?mk = "\<lambda>j. (Some (int j), ?f j)"
  have eq: "best_class_part_003 data offset na =
        foldl (\<lambda>st j. if js_gt (?f j) (snd st) then ?mk j else st) (None, Fin 0) [0..<?n]"
    unfolding best_class_part_003_def Let_def
    by (rule arg_cong[where f="\<lambda>g. foldl g (None, Fin 0) [0..<?n]"]) (auto simp: fun_eq_iff)
  have "\<And>j. snd (?mk j) = ?f j" by simp
  from running_max[of snd ?mk ?f "(None, Fin 0)" 0 ?n, OF this]
  show ?thesis
    unfolding eq[symmetric] length_class_scores
    by (auto simp: nth_class_scores length_class_scores)
qed

lemma length_class_scores_part_001: "length (class_scores_part_001 od offset) = 26"
  by (simp add: class_scores_part_001_def length_CLASS_NAMES del: upt_rec_numeral)

lemma nth_class_scores_part_001:
  "j < 26 \<Longrightarrow> class_scores_part_001 od offset ! j = rd od (offset + (5 + j))"
  by (simp add: class_scores_part_001_def length_CLASS_NAMES del: upt_rec_numeral)

lemma best_class_part_001_char:
  "(best_class_part_001 od offset = (Fin 0, - 1)
      \<and> (\<forall>j<26. \<not> js_gt (class_scores_part_001 od offset ! j) (Fin 0)))
   \<or> (\<exists>k<26.
         best_class_part_001 od offset = (class_scores_part_001 od offset ! k, int k)
       \<and> js_gt (class_scores_part_001 od offset ! k) (Fin 0)
       \<and> (\<forall>j<26. \<not> js_gt (class_scores_part_001 od offset ! j) (class_scores_part_001 od offset ! k))
       \<and> (\<forall>j<k. class_scores_part_001 od offset ! j \<noteq> class_scores_part_001 od offset ! k))"
proof -
  let ?f = "\<lambda>j. rd od (offset + j)"
  let ?mk = "\<lambda>j. (?f j, int j - 5)"
  have eq: "best_class_part_001 od offset =
        foldl (\<lambda>st j. if js_gt (?f j) (fst st) then ?mk j else st) (Fin 0, - 1) [5..<5 + 26]"
    unfolding best_class_part_001_def length_CLASS_NAMES
    by (rule arg_cong[where f="\<lambda>g. foldl g (Fin 0, - 1) [5..<5 + 26]"]) (auto simp: fun_eq_iff)
  have "\<And>j. fst (?mk j) = ?f j" by simp
  from running_max[of fst ?mk ?f "(Fin 0, - 1)" 5 "5 + 26", OF this]
  consider
    (init) "best_class_part_001 od offset = (Fin 0, - 1)"
       "\<forall>j. 5 \<le> j \<and> j < 31 \<longrightarrow> \<not> js_gt (?f j) (Fin 0)"
  | (found) k where "5 \<le> k" "k < 31" "best_class_part_001 od offset = ?mk k"
       "js_gt (?f k) (Fin 0)" "\<forall>j. 5 \<le> j \<and> j < 31 \<longrightarrow> \<not> js_gt (?f j) (?f k)"
       "\<forall>j. 5 \<le> j \<and> j < k \<longrightarrow> ?f j \<noteq> ?f k"
    unfolding eq[symmetric] by auto
  then show ?thesis
  proof cases
    case init
    then show ?thesis by (simp add: nth_class_scores_part_001)
  next
    case found
    define k' where "k' = k - 5"
    with found have k: "k = 5 + k'" "k' < 26" by auto
    have "best_class_part_001 od offset = (class_scores_part_001 od offset ! k', int k')"
      using found(3) k by (simp add: nth_class_scores_part_001)
    moreover have "js_gt (class_scores_part_001 od offset ! k') (Fin 0)"
      using found(4) k by (simp add: nth_class_scores_part_001)
    moreover have "\<forall>j<26. \<not> js_gt (class_scores_part_001 od offset ! j) (class_scores_part_001 od offset ! k')"
      using found(5) k by (simp add: nth_class_scores_part_001)
    moreover have "\<forall>j<k'. class_scores_part_001 od offset ! j \<noteq> class_scores_part_001 od offset ! k'"
      using found(6) k by (simp add: nth_class_scores_part_001)
    ultimately show ?thesis using k by blast
  qed
qed

lemma postprocess_row_part_003_kept:
  "(postprocess_row_part_003 sd thr data na i \<noteq> None) = js_ge (rd data (i * na + 4)) thr"
  by (simp add: postprocess_row_part_003_def Let_def split: prod.splits)

lemma postprocess_row_part_003_Some:
  "postprocess_row_part_003 sd thr data na i = Some d \<Longrightarrow>
     confidence d = rd data (i * na + 4) \<and> class_id d = fst (best_class_part_003 data (i * na) na)
     \<and> label d = class_label (class_id d)"
  by (auto simp: postprocess_row_part_003_def Let_def push_detection_def split: prod.splits if_splits)

lemma postprocess_row_part_001_kept:
  "(postprocess_row_part_001 od thr i \<noteq> None) =
     js_gt (js_mul (rd od (i * 31 + 4)) (fst (best_class_part_001 od (i * 31)))) thr"
  by (simp add: postprocess_row_part_001_def Let_def length_CLASS_NAMES split: prod.splits)

lemma postprocess_row_part_001_Some:
  "postprocess_row_part_001 od thr i = Some d \<Longrightarrow>
     confidence_fixed d = toFixed2 (js_mul (rd od (i * 31 + 4)) (fst (best_class_part_001 od (i * 31))))"
  by (auto simp: postprocess_row_part_001_def Let_def length_CLASS_NAMES split: prod.splits if_splits)

lemma nonMaxSuppression_single [simp]: "nonMaxSuppression [d] t = [d]"
  by (simp add: nonMaxSuppression_def sort_desc_def)

lemma nonMaxSuppression_Nil [simp]: "nonMaxSuppression [] t = []"
  by (simp add: nonMaxSuppression_def)

lemma part_001_product_at_threshold: "postprocess_part_001 (row_part_001 (1/2) (1/2)) (Fin (1/4)) = []"
  by (simp add: postprocess_part_001_def List.map_filter_def postprocess_row_part_001_def
      best_class_part_001_def Let_def length_CLASS_NAMES rd_def row_part_001_def js_gt_def)

lemma part_001_confidence_six: "map confidence_fixed (postprocess_part_001 (row_part_001 2 3) (Fin (1/4))) = [Fixed2 False 600]"
  by (simp add: postprocess_part_001_def List.map_filter_def postprocess_row_part_001_def
      best_class_part_001_def Let_def length_CLASS_NAMES rd_def row_part_001_def js_gt_def toFixed2_def)

lemma fixed2_text_six: "fixed2_text False 600 = asc ''6.00''"
  by (simp add: fixed2_text_def asc_def)


lemma set_map_filter: "set (List.map_filter f xs) = {y. \<exists>x\<in>set xs. f x = Some y}"
  by (induction xs) (auto simp: List.map_filter_def)

lemma nonMaxSuppression_subset: "set (nonMaxSuppression boxes t) \<subseteq> set boxes"
  using nms_loop_set[of t "sort_desc boxes"] by (simp add: nonMaxSuppression_def set_sort_desc)

lemma clamp_unit:
  "js_ge (js_max (Fin 0) (js_min (Fin 1) v)) t \<Longrightarrow>
     \<exists>c. js_max (Fin 0) (js_min (Fin 1) v) = Fin c \<and> 0 \<le> c \<and> c \<le> 1"
  by (cases v) (auto simp: js_max_def js_min_def js_ge_def split: if_splits)

lemma postprocess_row_confidence:
  assumes "postprocess_row sd thr data na i = Some d"
  shows "\<exists>c. confidence d = Fin c \<and> 0 \<le> c \<and> c \<le> 1"
  using assms unfolding postprocess_row_def Let_def
  by (auto split: if_splits prod.splits dest: clamp_unit)

section \<open>The confidence of a detection\<close>

text \<open>
  Claim C4, for the decoder of imageProcessor.js: for every tensor, dataset and pair of
  thresholds, every detection that \<open>postprocess\<close> returns has a confidence that is a
  finite number between 0 and 1.  The clamp \<open>Math.max(0, Math.min(1, finalConf))\<close> and
  the threshold test, which \<open>NaN\<close> fails, give it.
\<close>

theorem postprocess_confidence_unit_interval:
  "\<forall>d\<in>set (postprocess storageData CONFIDENCE_THRESHOLD NMS_THRESHOLD out).
      \<exists>c. confidence d = Fin c \<and> 0 \<le> c \<and> c \<le> 1"
proof
  fix d assume "d \<in> set (postprocess storageData CONFIDENCE_THRESHOLD NMS_THRESHOLD out)"
  then have "\<exists>i. postprocess_row storageData CONFIDENCE_THRESHOLD (output_data out)
                    (output_dims out ! 2) i = Some d"
    using nonMaxSuppression_subset
    by (fastforce simp: postprocess_def Let_def set_map_filter split: if_splits)
  then show "\<exists>c. confidence d = Fin c \<and> 0 \<le> c \<and> c \<le> 1"
    using postprocess_row_confidence by blast
qed

theorem postprocess_confidence_unit_interval_witness:
  "\<exists>c. confidence (hd (postprocess [] (Fin (1/10)) (Fin (2/5))
           \<lparr>output_data = [Fin 0, Fin 0, Fin 1, Fin 1, Fin 0, Fin 2], output_dims = [1, 1, 6]\<rparr>)) = Fin c
      \<and> 0 \<le> c \<and> c \<le> 1"
proof -
  let ?out = "\<lparr>output_data = [Fin 0, Fin 0, Fin 1, Fin 1, Fin 0, Fin 2], output_dims = [1, 1, 6]\<rparr>"
  have cs: "class_scores [Fin 0, Fin 0, Fin 1, Fin 1, Fin 0, Fin 2] (0 * 6) 6 = [Fin 2]"
    by (simp add: class_scores_def length_CLASS_NAMES rd_def)
  have sm: "softmax [Fin 2] = [Fin 1]"
    by (simp add: softmax_def js_max_list_def js_max_def js_sub_def)
  have "\<exists>d. postprocess_row [] (Fin (1/10)) [Fin 0, Fin 0, Fin 1, Fin 1, Fin 0, Fin 2] 6 0 = Some d"
    unfolding postprocess_row_def Let_def cs sm
    by (simp add: best_class_def rd_def isFinite_def sigmoid_def js_or0_def js_max_def js_min_def js_ge_def)
  then obtain d where d: "postprocess_row [] (Fin (1/10)) [Fin 0, Fin 0, Fin 1, Fin 1, Fin 0, Fin 2] 6 0 = Some d"
    by blast
  then have p: "postprocess [] (Fin (1/10)) (Fin (2/5)) ?out = [d]"
    by (simp add: postprocess_def List.map_filter_def)
  then have "hd (postprocess [] (Fin (1/10)) (Fin (2/5)) ?out)
      \<in> set (postprocess [] (Fin (1/10)) (Fin (2/5)) ?out)" by simp
  with postprocess_confidence_unit_interval[of "[]" "Fin (1/10)" "Fin (2/5)" ?out]
  show ?thesis by blast
qed

text \<open>
  The two raw variants do not clamp.  For a row with objectness 2 and best class score 3,
  part\_001 stores the string \<open>6.00\<close>; for a row with objectness 7, part\_003 stores the
  confidence 7.
\<close>

theorem raw_variants_confidence_unbounded:
  "map confidence_fixed (postprocess_part_001 (row_part_001 2 3) (Fin (1/4))) = [Fixed2 False 600]
   \<and> fixed2_text False 600 = asc ''6.00''
   \<and> map confidence
        (postprocess_part_003 [] (Fin (1/2)) (Fin (2/5))
           \<lparr>output_data = [Fin 0, Fin 0, Fin 1, Fin 1, Fin 7, Fin (1/2)], output_dims = [1, 1, 6]\<rparr>)
       = [Fin 7]"
proof -
  have a: "map confidence_fixed (postprocess_part_001 (row_part_001 2 3) (Fin (1/4))) = [Fixed2 False 600]"
    by (rule part_001_confidence_six)
  have b: "fixed2_text False 600 = asc ''6.00''" by (rule fixed2_text_six)
  have c: "map confidence
        (postprocess_part_003 [] (Fin (1/2)) (Fin (2/5))
           \<lparr>output_data = [Fin 0, Fin 0, Fin 1, Fin 1, Fin 7, Fin (1/2)], output_dims = [1, 1, 6]\<rparr>)
       = [Fin 7]"
    by (simp add: postprocess_part_003_def List.map_filter_def postprocess_row_part_003_def
        Let_def rd_def js_ge_def split: prod.splits)
  from a b c show ?thesis by simp
qed

section \<open>Raw scoring\<close>

text \<open>
  Claim C3, as the two raw decoders have it.  In part\_003 a row is kept exactly when its
  objectness alone is at least the threshold, the stored confidence is that objectness,
  and the class is \<open>null\<close> when no class score is above 0, else the first index that
  holds the greatest class score.  In part\_001 a row is kept exactly when the product of
  the objectness and the best score is strictly above the threshold, the stored confidence
  is the two-decimal string of that product, and the best score and class are 0 and
  \<open>-1\<close> when no class score is above 0, else the greatest class score and its first
  index.
\<close>

theorem raw_threshold_rows:
  "(postprocess_row_part_003 sd thr data na i \<noteq> None) = js_ge (rd data (i * na + 4)) thr
   \<and> (\<forall>d. postprocess_row_part_003 sd thr data na i = Some d \<longrightarrow>
          confidence d = rd data (i * na + 4)
        \<and> class_id d = fst (best_class_part_003 data (i * na) na))
   \<and> ((best_class_part_003 data (i * na) na = (None, Fin 0)
        \<and> (\<forall>j<length (class_scores data (i * na) na).
              \<not> js_gt (class_scores data (i * na) na ! j) (Fin 0)))
      \<or> (\<exists>k<length (class_scores data (i * na) na).
            best_class_part_003 data (i * na) na = (Some (int k), class_scores data (i * na) na ! k)
          \<and> js_gt (class_scores data (i * na) na ! k) (Fin 0)
          \<and> (\<forall>j<length (class_scores data (i * na) na).
                \<not> js_gt (class_scores data (i * na) na ! j) (class_scores data (i * na) na ! k))
          \<and> (\<forall>j<k. class_scores data (i * na) na ! j \<noteq> class_scores data (i * na) na ! k)))
   \<and> (postprocess_row_part_001 data thr i \<noteq> None) =
        js_gt (js_mul (rd data (i * 31 + 4)) (fst (best_class_part_001 data (i * 31)))) thr
   \<and> (\<forall>d. postprocess_row_part_001 data thr i = Some d \<longrightarrow>
          confidence_fixed d =
            toFixed2 (js_mul (rd data (i * 31 + 4)) (fst (best_class_part_001 data (i * 31)))))
   \<and> ((best_class_part_001 data (i * 31) = (Fin 0, - 1)
        \<and> (\<forall>j<26. \<not> js_gt (class_scores_part_001 data (i * 31) ! j) (Fin 0)))
      \<or> (\<exists>k<26.
            best_class_part_001 data (i * 31) = (class_scores_part_001 data (i * 31) ! k, int k)
          \<and> js_gt (class_scores_part_001 data (i * 31) ! k) (Fin 0)
          \<and> (\<forall>j<26. \<not> js_gt (class_scores_part_001 data (i * 31) ! j)
                          (class_scores_part_001 data (i * 31) ! k))
          \<and> (\<forall>j<k. class_scores_part_001 data (i * 31) ! j \<noteq> class_scores_part_001 data (i * 31) ! k)))"
  using postprocess_row_part_003_kept[of sd thr data na i]
    postprocess_row_part_003_Some[of sd thr data na i]
    best_class_part_003_char[of data "i * na" na]
    postprocess_row_part_001_kept[of data thr i]
    postprocess_row_part_001_Some[of data thr i]
    best_class_part_001_char[of data "i * 31"]
  by blast

theorem raw_threshold_rows_witness:
  "postprocess_row_part_003 [] (Fin (1/2)) [Fin 0, Fin 0, Fin 1, Fin 1, Fin (3/5), Fin (1/2)] 6 0 \<noteq> None
   \<and> postprocess_row_part_001 (row_part_001 (1/2) (1/2)) (Fin (1/4)) 0 = None"
proof -
  have a: "js_ge (rd [Fin 0, Fin 0, Fin 1, Fin 1, Fin (3/5), Fin (1/2)] (0 * 6 + 4)) (Fin (1/2))"
    by (simp add: rd_def js_ge_def)
  have b: "postprocess_row_part_003 [] (Fin (1/2)) [Fin 0, Fin 0, Fin 1, Fin 1, Fin (3/5), Fin (1/2)] 6 0 \<noteq> None"
    using raw_threshold_rows[of "[]" "Fin (1/2)" "[Fin 0, Fin 0, Fin 1, Fin 1, Fin (3/5), Fin (1/2)]" 6 0] a
    by blast
  have c: "\<not> js_gt (js_mul (rd (row_part_001 (1/2) (1/2)) (0 * 31 + 4))
                 (fst (best_class_part_001 (row_part_001 (1/2) (1/2)) (0 * 31)))) (Fin (1/4))"
    by (simp add: best_class_part_001_def length_CLASS_NAMES rd_def row_part_001_def js_gt_def)
  have "postprocess_row_part_001 (row_part_001 (1/2) (1/2)) (Fin (1/4)) 0 = None"
    using raw_threshold_rows[of "[]" "Fin (1/4)" "row_part_001 (1/2) (1/2)" 6 0] c
    by blast
  with b show ?thesis by simp
qed

text \<open>
  A row of part\_001 whose product equals the threshold \<open>1/4\<close> is dropped, and a row of
  part\_003 whose product \<open>3/10\<close> is below the threshold \<open>1/2\<close> is kept, with the
  objectness \<open>3/5\<close> as its confidence.
\<close>

theorem raw_threshold_not_on_product:
  "postprocess_part_001 (row_part_001 (1/2) (1/2)) (Fin (1/4)) = []
   \<and> js_ge (js_mul (Fin (1/2)) (Fin (1/2))) (Fin (1/4))
   \<and> map confidence
        (postprocess_part_003 [] (Fin (1/2)) (Fin (2/5))
           \<lparr>output_data = [Fin 0, Fin 0, Fin 1, Fin 1, Fin (3/5), Fin (1/2)], output_dims = [1, 1, 6]\<rparr>)
       = [Fin (3/5)]
   \<and> \<not> js_ge (js_mul (Fin (3/5)) (Fin (1/2))) (Fin (1/2))"
proof -
  have c: "map confidence
        (postprocess_part_003 [] (Fin (1/2)) (Fin (2/5))
           \<lparr>output_data = [Fin 0, Fin 0, Fin 1, Fin 1, Fin (3/5), Fin (1/2)], output_dims = [1, 1, 6]\<rparr>)
       = [Fin (3/5)]"
    by (simp add: postprocess_part_003_def List.map_filter_def postprocess_row_part_003_def
        Let_def rd_def js_ge_def split: prod.splits)
  from part_001_product_at_threshold c show ?thesis by (simp add: js_ge_def)
qed






section \<open>Labels of classes that cannot be resolved\<close>













section \<open>Probabilistic scoring\<close>





section \<open>Label normalisation is idempotent on ASCII\<close>

lemma normalizeLabel_steps:
  "normalizeLabel x = (if x = [] then [] else capitalize_second (fix_prefix (trim x)))"
  by (simp add: normalizeLabel_def fix_prefix_def capitalize_second_def capitalize_def Let_def)

subsection \<open>split and join\<close>

lemma split_us_nonempty: "split_us s \<noteq> []"
  by (induction s) (auto split: list.splits)

lemma split_us_no_us: "p \<in> set (split_us s) \<Longrightarrow> 95 \<notin> set p"
proof (induction s arbitrary: p)
  case Nil
  then show ?case by simp
next
  case (Cons c cs)
  show ?case
  proof (cases "c = 95")
    case True
    with Cons show ?thesis by auto
  next
    case False
    obtain q qs where q: "split_us cs = q # qs"
      using split_us_nonempty[of cs] by (cases "split_us cs") auto
    with Cons.prems False have "p = c # q \<or> p \<in> set qs" by simp
    with Cons.IH q False show ?thesis by auto
  qed
qed

lemma join_us_Cons_Cons: "join_us ((c # q) # qs) = c # join_us (q # qs)"
  by (cases qs) simp_all

lemma join_split: "join_us (split_us s) = s"
proof (induction s)
  case Nil
  then show ?case by simp
next
  case (Cons c cs)
  obtain q qs where q: "split_us cs = q # qs"
    using split_us_nonempty[of cs] by (cases "split_us cs") auto
  show ?case
  proof (cases "c = 95")
    case True
    with Cons q show ?thesis by simp
  next
    case False
    with Cons q show ?thesis by (simp add: join_us_Cons_Cons)
  qed
qed

lemma split_no_us: "95 \<notin> set p \<Longrightarrow> split_us p = [p]"
  by (induction p) auto

lemma split_append_us: "95 \<notin> set p \<Longrightarrow> split_us (p @ 95 # s) = p # split_us s"
  by (induction p) auto

lemma split_join: "ps \<noteq> [] \<Longrightarrow> \<forall>p\<in>set ps. 95 \<notin> set p \<Longrightarrow> split_us (join_us ps) = ps"
proof (induction ps rule: join_us.induct)
  case 1
  then show ?case by simp
next
  case (2 p)
  then show ?case by (simp add: split_no_us)
next
  case (3 p q ps)
  then show ?case by (simp add: split_append_us)
qed

subsection \<open>case mapping on ASCII\<close>

lemma toLowerCase_append: "toLowerCase (a @ b) = toLowerCase a @ toLowerCase b"
  by (simp add: toLowerCase_def)

lemma toLowerCase_Cons: "toLowerCase (c # s) = lower_unit c # toLowerCase s"
  by (simp add: toLowerCase_def)

lemma toLowerCase_join: "toLowerCase (join_us ps) = join_us (map toLowerCase ps)"
proof (induction ps rule: join_us.induct)
  case 1
  then show ?case by (simp add: toLowerCase_def)
next
  case (2 p)
  then show ?case by simp
next
  case (3 p q ps)
  have "lower_unit 95 = 95" by (simp add: lower_unit_def)
  with 3 show ?case by (simp add: toLowerCase_append toLowerCase_Cons)
qed

lemma toLowerCase_idem: "toLowerCase (toLowerCase s) = toLowerCase s"
  by (simp add: toLowerCase_def lower_unit_def)

lemma toLowerCase_toUpperCase: "ascii s \<Longrightarrow> toLowerCase (toUpperCase s) = toLowerCase s"
  by (induction s) (auto simp: toLowerCase_def toUpperCase_def upper_unit_def lower_unit_def ascii_def)

lemma toUpperCase_idem: "ascii s \<Longrightarrow> toUpperCase (toUpperCase s) = toUpperCase s"
  by (induction s) (auto simp: toUpperCase_def upper_unit_def ascii_def)

lemma toUpperCase_single: "c < 128 \<Longrightarrow> toUpperCase [c] = [if 97 \<le> c \<and> c \<le> 122 then c - 32 else c]"
  by (simp add: toUpperCase_def upper_unit_def)

lemma ascii_take: "ascii s \<Longrightarrow> ascii (take n s)"
  by (auto simp: ascii_def dest: in_set_takeD)

lemma ascii_drop: "ascii s \<Longrightarrow> ascii (drop n s)"
  by (auto simp: ascii_def dest: in_set_dropD)

lemma capitalize_Nil: "capitalize [] = []"
  by (simp add: capitalize_def toUpperCase_def toLowerCase_def)

lemma capitalize_Cons:
  "c < 128 \<Longrightarrow> capitalize (c # cs) = (if 97 \<le> c \<and> c \<le> 122 then c - 32 else c) # toLowerCase cs"
  by (simp add: capitalize_def toUpperCase_single)

lemma capitalize_idem: "ascii p \<Longrightarrow> capitalize (capitalize p) = capitalize p"
  by (cases p) (auto simp: capitalize_Nil capitalize_Cons ascii_def toLowerCase_idem)

lemma toLowerCase_capitalize: "ascii p \<Longrightarrow> toLowerCase (capitalize p) = toLowerCase p"
  by (cases p) (auto simp: capitalize_Nil capitalize_Cons ascii_def toLowerCase_idem toLowerCase_def lower_unit_def)

lemma toLowerCase_no_us: "95 \<notin> set p \<Longrightarrow> 95 \<notin> set (toLowerCase p)"
  by (auto simp: toLowerCase_def lower_unit_def)

lemma capitalize_no_us: "ascii p \<Longrightarrow> 95 \<notin> set p \<Longrightarrow> 95 \<notin> set (capitalize p)"
  by (cases p) (auto simp: capitalize_Nil capitalize_Cons ascii_def dest: toLowerCase_no_us)

lemma ascii_toLowerCase: "ascii p \<Longrightarrow> ascii (toLowerCase p)"
  by (auto simp: ascii_def toLowerCase_def lower_unit_def)

lemma ascii_capitalize: "ascii p \<Longrightarrow> ascii (capitalize p)"
proof (cases p)
  case Nil
  then show ?thesis by (simp add: capitalize_Nil ascii_def)
next
  case (Cons c cs)
  assume a: "ascii p"
  with Cons have c: "c < 128" and cs: "ascii cs" by (auto simp: ascii_def)
  from ascii_toLowerCase[OF cs] c show ?thesis
    unfolding Cons by (auto simp: capitalize_Cons ascii_def)
qed

subsection \<open>trim\<close>

lemma trim_trimmed: "trimmed (trim s)"
proof -
  let ?u = "dropWhile is_space s"
  let ?v = "dropWhile is_space (rev ?u)"
  show ?thesis
  proof (cases "?v = []")
    case True
    then show ?thesis by (simp add: trim_def trimmed_def)
  next
    case False
    have une: "?u \<noteq> []"
    proof
      assume a: "?u = []"
      have "?v = []" unfolding a by simp
      with False show False by blast
    qed
    have lastv: "\<not> is_space (hd ?v)" using False by (rule hd_dropWhile)
    have "last ?v = last (rev ?u)"
      using False by (metis last_appendR takeWhile_dropWhile_id)
    then have hdv: "last ?v = hd ?u" using une by (simp add: last_rev)
    have "\<not> is_space (hd ?u)" using une by (rule hd_dropWhile)
    with hdv lastv False show ?thesis
      by (simp add: trim_def trimmed_def hd_rev last_rev)
  qed
qed

lemma trim_id: "trimmed s \<Longrightarrow> trim s = s"
proof (cases "s = []")
  case True
  then show ?thesis by (simp add: trim_def)
next
  case False
  assume "trimmed s"
  with False have h: "\<not> is_space (hd s)" and l: "\<not> is_space (last s)"
    by (auto simp: trimmed_def)
  from False h have a: "dropWhile is_space s = s" by (cases s) auto
  from False l have "\<not> is_space (hd (rev s))" by (simp add: hd_rev)
  with False have b: "dropWhile is_space (rev s) = rev s" by (cases "rev s") auto
  show ?thesis by (simp add: trim_def a b)
qed

lemma ascii_trim: "ascii s \<Longrightarrow> ascii (trim s)"
  by (auto simp: ascii_def trim_def dest!: set_dropWhileD)

subsection \<open>The prefix\<close>

lemma asc_fresh: "asc ''fresh_'' = [102, 114, 101, 115, 104, 95]"
  and asc_Fresh: "asc ''Fresh_'' = [70, 114, 101, 115, 104, 95]"
  and asc_rotten: "asc ''rotten_'' = [114, 111, 116, 116, 101, 110, 95]"
  and asc_Rotten: "asc ''Rotten_'' = [82, 111, 116, 116, 101, 110, 95]"
  by (simp_all add: asc_def)

lemma toLowerCase_Fresh: "toLowerCase (asc ''Fresh_'') = asc ''fresh_''"
  and toLowerCase_Rotten: "toLowerCase (asc ''Rotten_'') = asc ''rotten_''"
  by (simp_all add: asc_fresh asc_Fresh asc_rotten asc_Rotten toLowerCase_def lower_unit_def)

lemma startsWith_append: "startsWith (p @ s) p"
  by (simp add: startsWith_def)

lemma fix_prefix_cases:
  obtains (fresh) "startsWith (toLowerCase t) (asc ''fresh_'')" "fix_prefix t = asc ''Fresh_'' @ drop 6 t"
  | (rotten) "\<not> startsWith (toLowerCase t) (asc ''fresh_'')" "startsWith (toLowerCase t) (asc ''rotten_'')"
       "fix_prefix t = asc ''Rotten_'' @ drop 7 t"
  | (other) "\<not> startsWith (toLowerCase t) (asc ''fresh_'')" "\<not> startsWith (toLowerCase t) (asc ''rotten_'')"
       "fix_prefix t = t"
  by (auto simp: fix_prefix_def)

lemma Fresh_not_rotten: "\<not> startsWith (asc ''Rotten_'' @ s) (asc ''fresh_'')"
  by (simp add: startsWith_def asc_fresh asc_Rotten)

text \<open>A string that starts with the canonical prefix is left alone.\<close>

lemma fix_prefix_Fresh: "fix_prefix (asc ''Fresh_'' @ s) = asc ''Fresh_'' @ s"
proof -
  have "startsWith (toLowerCase (asc ''Fresh_'' @ s)) (asc ''fresh_'')"
    by (simp add: toLowerCase_append toLowerCase_Fresh startsWith_append)
  moreover have "drop 6 (asc ''Fresh_'' @ s) = s" by (simp add: asc_Fresh)
  ultimately show ?thesis by (simp add: fix_prefix_def)
qed

lemma fix_prefix_Rotten: "fix_prefix (asc ''Rotten_'' @ s) = asc ''Rotten_'' @ s"
proof -
  have a: "startsWith (toLowerCase (asc ''Rotten_'' @ s)) (asc ''rotten_'')"
    by (simp add: toLowerCase_append toLowerCase_Rotten startsWith_append)
  have b: "\<not> startsWith (toLowerCase (asc ''Rotten_'' @ s)) (asc ''fresh_'')"
    by (simp add: toLowerCase_append toLowerCase_Rotten startsWith_def asc_fresh asc_rotten)
  have "drop 7 (asc ''Rotten_'' @ s) = s" by (simp add: asc_Rotten)
  with a b show ?thesis by (simp add: fix_prefix_def)
qed

lemma ascii_fix_prefix: "ascii t \<Longrightarrow> ascii (fix_prefix t)"
  by (cases t rule: fix_prefix_cases)
     (auto simp: ascii_def asc_Fresh asc_Rotten dest: in_set_dropD)

lemma trimmed_fix_prefix:
  assumes "trimmed t"
  shows "trimmed (fix_prefix t)"
proof (cases t rule: fix_prefix_cases)
  case fresh
  have "\<not> is_space (last (asc ''Fresh_'' @ drop 6 t))"
  proof (cases "drop 6 t = []")
    case True
    then show ?thesis by (simp add: asc_Fresh is_space_def)
  next
    case False
    then have "last (asc ''Fresh_'' @ drop 6 t) = last t" by simp
    moreover from False have "t \<noteq> []" by auto
    ultimately show ?thesis using assms by (simp add: trimmed_def)
  qed
  moreover have "\<not> is_space (hd (asc ''Fresh_'' @ drop 6 t))"
    by (simp add: asc_Fresh is_space_def)
  ultimately show ?thesis unfolding fresh(2) by (simp add: trimmed_def)
next
  case rotten
  have "\<not> is_space (last (asc ''Rotten_'' @ drop 7 t))"
  proof (cases "drop 7 t = []")
    case True
    then show ?thesis by (simp add: asc_Rotten is_space_def)
  next
    case False
    then have "last (asc ''Rotten_'' @ drop 7 t) = last t" by simp
    moreover from False have "t \<noteq> []" by auto
    ultimately show ?thesis using assms by (simp add: trimmed_def)
  qed
  moreover have "\<not> is_space (hd (asc ''Rotten_'' @ drop 7 t))"
    by (simp add: asc_Rotten is_space_def)
  ultimately show ?thesis unfolding rotten(3) by (simp add: trimmed_def)
next
  case other
  with assms show ?thesis by simp
qed

subsection \<open>The second segment\<close>

lemma capitalize_second_two:
  "split_us f = p0 # p1 # rest \<Longrightarrow> capitalize_second f = join_us (p0 # capitalize p1 # rest)"
  by (simp add: capitalize_second_def)

lemma capitalize_second_one: "split_us f = [p] \<Longrightarrow> capitalize_second f = f"
  by (simp add: capitalize_second_def)

lemma split_us_cases:
  obtains (one) p where "split_us f = [p]"
  | (two) p0 p1 rest where "split_us f = p0 # p1 # rest"
  using split_us_nonempty[of f] by (cases "split_us f" rule: join_us.cases) auto

lemma set_join_us: "p \<in> set ps \<Longrightarrow> set p \<subseteq> set (join_us ps)"
  by (induction ps rule: join_us.induct) auto

lemma ascii_split: "ascii f \<Longrightarrow> p \<in> set (split_us f) \<Longrightarrow> ascii p"
  using set_join_us[of p "split_us f"] by (auto simp: join_split ascii_def)

lemma capitalize_second_idem:
  assumes "ascii f"
  shows "capitalize_second (capitalize_second f) = capitalize_second f"
proof (cases f rule: split_us_cases)
  case (one p)
  then show ?thesis by (simp add: capitalize_second_one)
next
  case (two p0 p1 rest)
  have a1: "ascii p1" using assms two by (auto intro: ascii_split)
  have nu: "\<forall>p\<in>set (p0 # p1 # rest). 95 \<notin> set p"
    using split_us_no_us[of _ f] two by auto
  then have "\<forall>p\<in>set (p0 # capitalize p1 # rest). 95 \<notin> set p"
    using capitalize_no_us[OF a1] by auto
  then have sp: "split_us (join_us (p0 # capitalize p1 # rest)) = p0 # capitalize p1 # rest"
    by (intro split_join) simp_all
  show ?thesis
    unfolding capitalize_second_two[OF two] capitalize_second_two[OF sp]
    by (simp add: capitalize_idem[OF a1])
qed

lemma toLowerCase_capitalize_second:
  assumes "ascii f"
  shows "toLowerCase (capitalize_second f) = toLowerCase f"
proof (cases f rule: split_us_cases)
  case (one p)
  then show ?thesis by (simp add: capitalize_second_one)
next
  case (two p0 p1 rest)
  have a1: "ascii p1" using assms two by (auto intro: ascii_split)
  have "toLowerCase (join_us (p0 # capitalize p1 # rest))
      = join_us (map toLowerCase (p0 # capitalize p1 # rest))"
    by (rule toLowerCase_join)
  also have "\<dots> = join_us (map toLowerCase (p0 # p1 # rest))"
    by (simp only: list.map toLowerCase_capitalize[OF a1])
  also have "\<dots> = toLowerCase (join_us (p0 # p1 # rest))"
    by (rule toLowerCase_join[symmetric])
  finally show ?thesis
    unfolding capitalize_second_two[OF two] using join_split[of f] two by simp
qed

lemma ascii_join: "\<forall>p\<in>set ps. ascii p \<Longrightarrow> ascii (join_us ps)"
  by (induction ps rule: join_us.induct) (auto simp: ascii_def)

lemma ascii_capitalize_second:
  assumes "ascii f"
  shows "ascii (capitalize_second f)"
proof (cases f rule: split_us_cases)
  case (one p)
  with assms show ?thesis by (simp add: capitalize_second_one)
next
  case (two p0 p1 rest)
  have "\<forall>p\<in>set (p0 # p1 # rest). ascii p" using assms two ascii_split[of f] by auto
  then have "\<forall>p\<in>set (p0 # capitalize p1 # rest). ascii p"
    using ascii_capitalize by auto
  then show ?thesis unfolding capitalize_second_two[OF two] by (rule ascii_join)
qed

lemma is_space_upper: "c < 128 \<Longrightarrow> \<not> is_space c \<Longrightarrow> \<not> is_space (if 97 \<le> c \<and> c \<le> 122 then c - 32 else c)"
  by (auto simp: is_space_def)

lemma is_space_lower: "\<not> is_space c \<Longrightarrow> \<not> is_space (lower_unit c)"
  by (auto simp: is_space_def lower_unit_def)

lemma last_capitalize:
  assumes "ascii p" "p \<noteq> []" "\<not> is_space (last p)"
  shows "\<not> is_space (last (capitalize p))"
proof -
  from assms(2) obtain c cs where p: "p = c # cs" by (cases p) auto
  with assms(1) have c: "c < 128" by (simp add: ascii_def)
  show ?thesis
  proof (cases "cs = []")
    case True
    with assms(3) p c show ?thesis by (simp add: capitalize_Cons toLowerCase_def is_space_upper)
  next
    case False
    then have "last (toLowerCase cs) = lower_unit (last cs)"
      by (simp add: toLowerCase_def last_map)
    with False assms(3) p c show ?thesis
      by (simp add: capitalize_Cons toLowerCase_def is_space_lower)
  qed
qed

lemma capitalize_eq_Nil: "ascii p \<Longrightarrow> (capitalize p = []) = (p = [])"
  by (cases p) (auto simp: capitalize_Nil capitalize_Cons ascii_def)

lemma trimmed_capitalize_second:
  assumes "ascii f" "trimmed f"
  shows "trimmed (capitalize_second f)"
proof (cases f rule: split_us_cases)
  case (one p)
  with assms show ?thesis by (simp add: capitalize_second_one)
next
  case (two p0 p1 rest)
  have a1: "ascii p1" using assms two by (auto intro: ascii_split)
  have f: "f = join_us (p0 # p1 # rest)" using join_split[of f] two by simp
  let ?r = "join_us (p0 # capitalize p1 # rest)"
  have fne: "f \<noteq> []" unfolding f by simp
  with assms(2) have hf: "\<not> is_space (hd f)" and lf: "\<not> is_space (last f)"
    by (auto simp: trimmed_def)
  have hd_eq: "hd ?r = hd f" unfolding f by (cases p0) simp_all
  have lr: "\<not> is_space (last ?r)"
  proof (cases rest)
    case Nil
    show ?thesis
    proof (cases "p1 = []")
      case True
      then show ?thesis using Nil by (simp add: capitalize_Nil is_space_def)
    next
      case False
      with lf have "\<not> is_space (last p1)" unfolding f Nil by simp
      from last_capitalize[OF a1 False this] False a1 show ?thesis
        unfolding Nil by (simp add: capitalize_eq_Nil)
    qed
  next
    case (Cons q qs)
    have "last ?r = last f" unfolding f Cons by simp
    with lf show ?thesis by simp
  qed
  from hf hd_eq lr show ?thesis
    unfolding capitalize_second_two[OF two] by (simp add: trimmed_def)
qed

lemma fix_prefix_capitalize_second:
  assumes "ascii t"
  shows "fix_prefix (capitalize_second (fix_prefix t)) = capitalize_second (fix_prefix t)"
proof (cases t rule: fix_prefix_cases)
  case fresh
  let ?s = "drop 6 t"
  have F: "asc ''Fresh_'' = asc ''Fresh'' @ [95]" by (simp add: asc_def)
  have nu: "95 \<notin> set (asc ''Fresh'')" by (simp add: asc_def)
  obtain q qs where q: "split_us ?s = q # qs"
    using split_us_nonempty[of ?s] by (cases "split_us ?s") auto
  have "split_us (fix_prefix t) = asc ''Fresh'' # q # qs"
    unfolding fresh(2) F using split_append_us[OF nu, of ?s] q by simp
  then have "capitalize_second (fix_prefix t) = join_us (asc ''Fresh'' # capitalize q # qs)"
    by (rule capitalize_second_two)
  also have "\<dots> = asc ''Fresh_'' @ join_us (capitalize q # qs)" by (simp add: F)
  finally show ?thesis by (simp add: fix_prefix_Fresh)
next
  case rotten
  let ?s = "drop 7 t"
  have F: "asc ''Rotten_'' = asc ''Rotten'' @ [95]" by (simp add: asc_def)
  have nu: "95 \<notin> set (asc ''Rotten'')" by (simp add: asc_def)
  obtain q qs where q: "split_us ?s = q # qs"
    using split_us_nonempty[of ?s] by (cases "split_us ?s") auto
  have "split_us (fix_prefix t) = asc ''Rotten'' # q # qs"
    unfolding rotten(3) F using split_append_us[OF nu, of ?s] q by simp
  then have "capitalize_second (fix_prefix t) = join_us (asc ''Rotten'' # capitalize q # qs)"
    by (rule capitalize_second_two)
  also have "\<dots> = asc ''Rotten_'' @ join_us (capitalize q # qs)" by (simp add: F)
  finally show ?thesis by (simp add: fix_prefix_Rotten)
next
  case other
  have "toLowerCase (capitalize_second t) = toLowerCase t"
    using assms by (rule toLowerCase_capitalize_second)
  with other show ?thesis by (simp add: fix_prefix_def)
qed

text \<open>
  Claim C7, for ASCII input: \<open>normalizeLabel\<close> applied twice gives what it gives applied
  once, for every string of code units below 128.
\<close>

theorem normalizeLabel_idempotent_ascii:
  assumes "ascii x"
  shows "normalizeLabel (normalizeLabel x) = normalizeLabel x"
proof (cases "normalizeLabel x = []")
  case True
  then show ?thesis by (simp add: normalizeLabel_steps)
next
  case False
  then have x: "x \<noteq> []" by (auto simp: normalizeLabel_steps)
  let ?t = "trim x"
  let ?f = "fix_prefix ?t"
  let ?r = "capitalize_second ?f"
  have r: "normalizeLabel x = ?r" using x by (simp add: normalizeLabel_steps)
  have at: "ascii ?t" using assms by (rule ascii_trim)
  have af: "ascii ?f" using at by (rule ascii_fix_prefix)
  have tf: "trimmed ?f" using trim_trimmed by (rule trimmed_fix_prefix)
  have "trimmed ?r" using af tf by (rule trimmed_capitalize_second)
  then have 1: "trim ?r = ?r" by (rule trim_id)
  have 2: "fix_prefix ?r = ?r" using at by (rule fix_prefix_capitalize_second)
  have 3: "capitalize_second ?r = ?r" using af by (rule capitalize_second_idem)
  from False r have "normalizeLabel ?r = capitalize_second (fix_prefix (trim ?r))"
    by (simp add: normalizeLabel_steps)
  with 1 2 3 r show ?thesis by simp
qed

theorem normalizeLabel_idempotent_ascii_witness:
  "normalizeLabel (asc ''  fresh_APPLE '') = asc ''Fresh_Apple''
   \<and> normalizeLabel (normalizeLabel (asc ''  fresh_APPLE '')) = normalizeLabel (asc ''  fresh_APPLE '')"
proof -
  have a: "ascii (asc ''  fresh_APPLE '')" by (simp add: ascii_def asc_def)
  have b: "normalizeLabel (asc ''  fresh_APPLE '') = asc ''Fresh_Apple''"
    by (simp add: normalizeLabel_def trim_def is_space_def startsWith_def toLowerCase_def
        toUpperCase_def lower_unit_def upper_unit_def asc_def Let_def)
  from normalizeLabel_idempotent_ascii[OF a] b show ?thesis by simp
qed

text \<open>
  Outside ASCII the claim fails: the upper case of the sharp s (U+00DF) is the two letters
  \<open>SS\<close>, so \<open>a_\<close> followed by a sharp s becomes \<open>a_SS\<close>, and that becomes \<open>a_Ss\<close>.
\<close>

theorem normalizeLabel_sharp_s:
  "normalizeLabel [97, 95, 223] = [97, 95, 83, 83]
   \<and> normalizeLabel (normalizeLabel [97, 95, 223]) = [97, 95, 83, 115]"
proof -
  have a: "normalizeLabel [97, 95, 223] = [97, 95, 83, 83]"
    by (simp add: normalizeLabel_def trim_def is_space_def startsWith_def toLowerCase_def
        toUpperCase_def lower_unit_def upper_unit_def asc_def Let_def)
  have b: "normalizeLabel [97, 95, 83, 83] = [97, 95, 83, 115]"
    by (simp add: normalizeLabel_def trim_def is_space_def startsWith_def toLowerCase_def
        toUpperCase_def lower_unit_def upper_unit_def asc_def Let_def)
  from a b show ?thesis by simp
qed

section \<open>The storage lookup\<close>

lemma asc_inj: "(asc a = asc b) = (a = b)"
proof -
  have "inj (of_char :: char \<Rightarrow> nat)" by (rule inj_onI) simp
  then show ?thesis unfolding asc_def by (simp add: inj_map_eq_map)
qed

lemma map_of_object_literal_aux:
  "map_of (foldl (\<lambda>acc (k, v). AList.update k v acc) acc ps) = map_of acc ++ map_of (rev ps)"
proof (induction ps arbitrary: acc)
  case Nil
  then show ?case by simp
next
  case (Cons p ps)
  obtain k v where p: "p = (k, v)" by (cases p)
  have "map_of (AList.update k v acc) ++ map_of (rev ps) = map_of acc ++ ([k \<mapsto> v] ++ map_of (rev ps))"
    by (rule ext) (auto simp: update_conv' map_add_def split: option.splits)
  with Cons[of "AList.update k v acc"] show ?case
    by (simp add: p)
qed

lemma map_of_object_literal: "map_of (object_literal ps) = map_of (rev ps)"
  by (simp add: object_literal_def map_of_object_literal_aux)

lemma map_of_rev_distinct: "distinct (map fst xs) \<Longrightarrow> map_of (rev xs) = map_of xs"
  by (rule map_of_inject_set[THEN iffD2]) (simp_all add: rev_map[symmetric])

lemma merge_entry_default:
  "merge_entry entry normalized =
     JObj (object_literal
           (own_props (default_entry normalized) @ own_props entry @
            [(asc ''storage_methods'',
                or_else (nullish (field entry (asc ''storage_methods''))
                                 (field (default_entry normalized) (asc ''storage_methods''))) (JArr [])),
             (asc ''ripeness_guide'',
                or_else (nullish (field entry (asc ''ripeness_guide''))
                                 (field (default_entry normalized) (asc ''ripeness_guide''))) (JObj [])),
             (asc ''preparation_tips'',
                or_else (nullish (field entry (asc ''preparation_tips''))
                                 (field (default_entry normalized) (asc ''preparation_tips''))) (JObj [])),
             (asc ''source'',
                or_else (nullish (field entry (asc ''source''))
                                 (field (default_entry normalized) (asc ''source''))) (JStr (asc ''Unknown'')))]))"
  by (simp add: merge_entry_def default_entry_def Let_def)

lemma DEFAULT_records_distinct:
  "distinct (map fst DEFAULT_Fresh_Apple)"
  "distinct (map fst DEFAULT_Fresh_Banana)"
  "distinct (map fst DEFAULT_Fresh_Orange)"
  "distinct (map fst DEFAULT_Fresh_Manggo)"
  "distinct (map fst DEFAULT_Fresh_Strawberry)"
  "distinct (map fst DEFAULT_Fresh_Potato)"
  "distinct (map fst DEFAULT_Fresh_Carrot)"
  "distinct (map fst DEFAULT_Fresh_Pepper)"
  "distinct (map fst DEFAULT_Fresh_Cucumber)"
  "distinct (map fst DEFAULT_Fresh_Okra)"
  "distinct (map fst DEFAULT_Fresh_Beef)"
  "distinct (map fst DEFAULT_Fresh_Chicken)"
  "distinct (map fst DEFAULT_Fresh_Pork)"
  "distinct (map fst DEFAULT_Rotten_Apple)"
  "distinct (map fst DEFAULT_Rotten_Banana)"
  "distinct (map fst DEFAULT_Rotten_Orange)"
  "distinct (map fst DEFAULT_Rotten_Manggo)"
  "distinct (map fst DEFAULT_Rotten_Strawberry)"
  "distinct (map fst DEFAULT_Rotten_Carrot)"
  "distinct (map fst DEFAULT_Rotten_Cucumber)"
  "distinct (map fst DEFAULT_Rotten_Okra)"
  "distinct (map fst DEFAULT_Rotten_Pepper)"
  "distinct (map fst DEFAULT_Rotten_Potato)"
  "distinct (map fst DEFAULT_Rotten_Beef)"
  "distinct (map fst DEFAULT_Rotten_Chicken)"
  "distinct (map fst DEFAULT_Rotten_Pork)"
  by (simp_all add: asc_inj
      DEFAULT_Fresh_Apple_def DEFAULT_Fresh_Banana_def DEFAULT_Fresh_Orange_def
      DEFAULT_Fresh_Manggo_def DEFAULT_Fresh_Strawberry_def DEFAULT_Fresh_Potato_def
      DEFAULT_Fresh_Carrot_def DEFAULT_Fresh_Pepper_def DEFAULT_Fresh_Cucumber_def
      DEFAULT_Fresh_Okra_def DEFAULT_Fresh_Beef_def DEFAULT_Fresh_Chicken_def
      DEFAULT_Fresh_Pork_def DEFAULT_Rotten_Apple_def DEFAULT_Rotten_Banana_def
      DEFAULT_Rotten_Orange_def DEFAULT_Rotten_Manggo_def DEFAULT_Rotten_Strawberry_def
      DEFAULT_Rotten_Carrot_def DEFAULT_Rotten_Cucumber_def DEFAULT_Rotten_Okra_def
      DEFAULT_Rotten_Pepper_def DEFAULT_Rotten_Potato_def DEFAULT_Rotten_Beef_def
      DEFAULT_Rotten_Chicken_def DEFAULT_Rotten_Pork_def)

lemma DEFAULT_values_objects:
  "map_of DEFAULT_STORAGE_DATA k = Some v \<Longrightarrow> \<exists>fs. v = JObj fs \<and> distinct (map fst fs)"
proof -
  have "\<forall>(k, v)\<in>set DEFAULT_STORAGE_DATA. \<exists>fs. v = JObj fs \<and> distinct (map fst fs)"
    by (simp add: DEFAULT_STORAGE_DATA_def DEFAULT_records_distinct)
  moreover assume "map_of DEFAULT_STORAGE_DATA k = Some v"
  then have "(k, v) \<in> set DEFAULT_STORAGE_DATA" by (rule map_of_SomeD)
  ultimately show ?thesis by blast
qed

lemma default_entry_cases:
  obtains (table) fs where "default_entry n = JObj fs" "distinct (map fst fs)"
  | (inherited) "default_entry n = JBuiltin n"
proof (cases "map_of DEFAULT_STORAGE_DATA n")
  case None
  show ?thesis
  proof (cases "n \<in> set object_prototype_keys")
    case True
    with None have "default_entry n = JBuiltin n" by (simp add: default_entry_def obj_get_def)
    then show ?thesis by (rule inherited)
  next
    case False
    with None have "default_entry n = JObj []" by (simp add: default_entry_def obj_get_def)
    then show ?thesis by (rule table) simp
  qed
next
  case (Some v)
  from DEFAULT_values_objects[OF Some] obtain fs where fs: "v = JObj fs" "distinct (map fst fs)"
    by blast
  with Some have "default_entry n = JObj fs" by (simp add: default_entry_def obj_get_def)
  then show ?thesis using fs(2) by (rule table)
qed

lemma field_default_entry:
  "field (default_entry n) f = map_of (rev (own_props (default_entry n))) f"
  by (cases n rule: default_entry_cases) (simp_all add: field_def map_of_rev_distinct)

lemma or_else_value:
  "or_else a d = (case a of None \<Rightarrow> d | Some v \<Rightarrow> if v = JNull then d else v)"
  by (auto simp: or_else_def nullish_def split: option.splits jsval.splits)

lemma nullish_value:
  "nullish a b = (case a of None \<Rightarrow> b | Some v \<Rightarrow> if v = JNull then b else Some v)"
  by (auto simp: nullish_def split: option.splits jsval.splits)

lemma map_of_merge_entry:
  assumes "distinct (map fst entry)"
  shows "\<exists>merged. merge_entry (JObj entry) n = JObj merged
     \<and> (\<forall>f. f \<notin> set backfilled_fields \<longrightarrow>
            map_of merged f = (case map_of entry f of Some v \<Rightarrow> Some v | None \<Rightarrow> field (default_entry n) f))
     \<and> (\<forall>f\<in>set backfilled_fields.
            map_of merged f = Some (or_else (nullish (map_of entry f) (field (default_entry n) f)) (fallback f)))"
proof -
  let ?four = "[(asc ''storage_methods'',
                or_else (nullish (field (JObj entry) (asc ''storage_methods''))
                                 (field (default_entry n) (asc ''storage_methods''))) (JArr [])),
             (asc ''ripeness_guide'',
                or_else (nullish (field (JObj entry) (asc ''ripeness_guide''))
                                 (field (default_entry n) (asc ''ripeness_guide''))) (JObj [])),
             (asc ''preparation_tips'',
                or_else (nullish (field (JObj entry) (asc ''preparation_tips''))
                                 (field (default_entry n) (asc ''preparation_tips''))) (JObj [])),
             (asc ''source'',
                or_else (nullish (field (JObj entry) (asc ''source''))
                                 (field (default_entry n) (asc ''source''))) (JStr (asc ''Unknown'')))]"
  let ?merged = "object_literal (own_props (default_entry n) @ own_props (JObj entry) @ ?four)"
  have m: "merge_entry (JObj entry) n = JObj ?merged" by (rule merge_entry_default)
  have look: "map_of ?merged f =
      (case map_of (rev ?four) f of Some v \<Rightarrow> Some v
       | None \<Rightarrow> (case map_of entry f of Some v \<Rightarrow> Some v | None \<Rightarrow> field (default_entry n) f))" for f
    by (simp add: map_of_object_literal map_add_def field_default_entry map_of_rev_distinct[OF assms]
        split: option.splits)
  have a: "\<forall>f. f \<notin> set backfilled_fields \<longrightarrow>
            map_of ?merged f = (case map_of entry f of Some v \<Rightarrow> Some v | None \<Rightarrow> field (default_entry n) f)"
    unfolding look by (simp add: backfilled_fields_def)
  have b: "\<forall>f\<in>set backfilled_fields.
            map_of ?merged f = Some (or_else (nullish (map_of entry f) (field (default_entry n) f)) (fallback f))"
    unfolding look by (simp add: backfilled_fields_def fallback_def field_def asc_inj)
  from m a b show ?thesis by blast
qed

text \<open>
  Claim C6, for \<open>getStorageData\<close> of storageService.js.  When the lookup of a label finds a
  record \<open>entry\<close> in the active dataset, the result is a merged record in which every
  field of \<open>entry\<close> that is not \<open>null\<close> keeps the value of \<open>entry\<close>, as does every
  field of \<open>entry\<close> outside the four fields written last; every field that \<open>entry\<close>
  lacks, and every one of the four that \<open>entry\<close> holds as \<open>null\<close>, is taken from the
  built-in default record of the normalised label when that record has a value other than
  \<open>null\<close> for it; and the four fields are always present.
\<close>

theorem getStorageData_merges_defaults:
  assumes "s \<noteq> []"
    and "find_entry storageData (normalizeLabel s) = Some (JObj entry)"
    and "distinct (map fst entry)"
  shows "\<exists>merged. getStorageData storageData (Some (JStr s)) = JObj merged
     \<and> (\<forall>f v. map_of entry f = Some v \<and> v \<noteq> JNull \<longrightarrow> map_of merged f = Some v)
     \<and> (\<forall>f v. map_of entry f = Some v \<and> f \<notin> set backfilled_fields \<longrightarrow> map_of merged f = Some v)
     \<and> (\<forall>f v. map_of entry f = None \<and> field (default_entry (normalizeLabel s)) f = Some v
              \<and> v \<noteq> JNull \<longrightarrow> map_of merged f = Some v)
     \<and> (\<forall>f v. f \<in> set backfilled_fields \<and> map_of entry f = Some JNull
              \<and> field (default_entry (normalizeLabel s)) f = Some v \<and> v \<noteq> JNull \<longrightarrow>
              map_of merged f = Some v)
     \<and> (\<forall>f\<in>set backfilled_fields. \<exists>v. map_of merged f = Some v \<and> v \<noteq> JNull)"
proof -
  let ?n = "normalizeLabel s"
  from map_of_merge_entry[OF assms(3), of ?n] obtain merged where
    m: "merge_entry (JObj entry) ?n = JObj merged"
    and a: "\<forall>f. f \<notin> set backfilled_fields \<longrightarrow>
            map_of merged f = (case map_of entry f of Some v \<Rightarrow> Some v | None \<Rightarrow> field (default_entry ?n) f)"
    and b: "\<forall>f\<in>set backfilled_fields.
            map_of merged f = Some (or_else (nullish (map_of entry f) (field (default_entry ?n) f)) (fallback f))"
    by blast
  have g: "getStorageData storageData (Some (JStr s)) = JObj merged"
    using assms(1,2) m by (simp add: getStorageData_def Let_def)
  have fb: "fallback f \<noteq> JNull" for f by (simp add: fallback_def)
  have 1: "\<forall>f v. map_of entry f = Some v \<and> v \<noteq> JNull \<longrightarrow> map_of merged f = Some v"
  proof (intro allI impI)
    fix f v assume h: "map_of entry f = Some v \<and> v \<noteq> JNull"
    show "map_of merged f = Some v"
    proof (cases "f \<in> set backfilled_fields")
      case True
      with b h show ?thesis by (simp add: or_else_value nullish_value)
    next
      case False
      with a h show ?thesis by simp
    qed
  qed
  have 2: "\<forall>f v. map_of entry f = Some v \<and> f \<notin> set backfilled_fields \<longrightarrow> map_of merged f = Some v"
    using a by simp
  have 3: "\<forall>f v. map_of entry f = None \<and> field (default_entry ?n) f = Some v
              \<and> v \<noteq> JNull \<longrightarrow> map_of merged f = Some v"
  proof (intro allI impI)
    fix f v assume h: "map_of entry f = None \<and> field (default_entry ?n) f = Some v \<and> v \<noteq> JNull"
    show "map_of merged f = Some v"
    proof (cases "f \<in> set backfilled_fields")
      case True
      with b h show ?thesis by (simp add: or_else_value nullish_value)
    next
      case False
      with a h show ?thesis by simp
    qed
  qed
  have 4: "\<forall>f v. f \<in> set backfilled_fields \<and> map_of entry f = Some JNull
              \<and> field (default_entry ?n) f = Some v \<and> v \<noteq> JNull \<longrightarrow> map_of merged f = Some v"
    using b by (simp add: or_else_value nullish_value)
  have 5: "\<forall>f\<in>set backfilled_fields. \<exists>v. map_of merged f = Some v \<and> v \<noteq> JNull"
  proof
    fix f assume f: "f \<in> set backfilled_fields"
    with b have "map_of merged f = Some (or_else (nullish (map_of entry f) (field (default_entry ?n) f)) (fallback f))"
      by blast
    moreover have "or_else (nullish (map_of entry f) (field (default_entry ?n) f)) (fallback f) \<noteq> JNull"
      using fb[of f] by (auto simp: or_else_value nullish_value split: option.splits)
    ultimately show "\<exists>v. map_of merged f = Some v \<and> v \<noteq> JNull" by blast
  qed
  from g 1 2 3 4 5 show ?thesis by blast
qed

lemma normalizeLabel_fresh_apple: "normalizeLabel (asc ''fresh_apple'') = asc ''Fresh_Apple''"
  by (simp add: normalizeLabel_def trim_def is_space_def startsWith_def toLowerCase_def
        toUpperCase_def lower_unit_def upper_unit_def asc_def Let_def)

lemma normalizeLabel_Rotten_Apple: "normalizeLabel (asc ''Rotten_Apple'') = asc ''Rotten_Apple''"
  by (simp add: normalizeLabel_def trim_def is_space_def startsWith_def toLowerCase_def
        toUpperCase_def lower_unit_def upper_unit_def asc_def Let_def)

lemma normalizeLabel_constructor: "normalizeLabel (asc ''constructor'') = asc ''constructor''"
  by (simp add: normalizeLabel_def trim_def is_space_def startsWith_def toLowerCase_def
        toUpperCase_def lower_unit_def upper_unit_def asc_def Let_def)

lemma default_entry_Fresh_Apple: "default_entry (asc ''Fresh_Apple'') = JObj DEFAULT_Fresh_Apple"
  by (simp add: default_entry_def obj_get_def DEFAULT_STORAGE_DATA_def asc_inj)

lemma default_entry_Rotten_Apple: "default_entry (asc ''Rotten_Apple'') = JObj DEFAULT_Rotten_Apple"
  by (simp add: default_entry_def obj_get_def DEFAULT_STORAGE_DATA_def asc_inj)

text \<open>
  The override record that lacks only \<open>source\<close>: the merged record has the \<open>source\<close> of
  the built-in record and the other fields of the override.
\<close>

theorem getStorageData_merges_defaults_witness:
  "\<exists>merged. getStorageData override_example (Some (JStr (asc ''fresh_apple''))) = JObj merged
     \<and> map_of merged (asc ''source'') =
         Some (JStr (asc ''USDA Food Storage Guidelines & University of Maine Cooperative Extension''))
     \<and> map_of merged (asc ''storage'') = Some (JStr (asc ''Pantry''))
     \<and> map_of merged (asc ''shelf_life'') = Some (JNum (Fin 3))
     \<and> map_of merged (asc ''storage_methods'') = Some (JArr [])"
proof -
  have s: "asc ''fresh_apple'' \<noteq> []" by (simp add: asc_def)
  have f: "find_entry override_example (normalizeLabel (asc ''fresh_apple'')) = Some (JObj override_record)"
    by (simp add: normalizeLabel_fresh_apple find_entry_def obj_get_def override_example_def)
  have d: "distinct (map fst override_record)"
    by (simp add: override_record_def asc_inj)
  have src: "map_of override_record (asc ''source'') = None"
    by (simp add: override_record_def asc_inj)
  have dsrc: "field (default_entry (normalizeLabel (asc ''fresh_apple''))) (asc ''source'')
      = Some (JStr (asc ''USDA Food Storage Guidelines & University of Maine Cooperative Extension''))"
    by (simp add: normalizeLabel_fresh_apple default_entry_Fresh_Apple field_def DEFAULT_Fresh_Apple_def asc_inj)
  have ne: "JStr (asc ''USDA Food Storage Guidelines & University of Maine Cooperative Extension'') \<noteq> JNull"
    by simp
  have st: "map_of override_record (asc ''storage'') = Some (JStr (asc ''Pantry''))"
      "map_of override_record (asc ''shelf_life'') = Some (JNum (Fin 3))"
      "map_of override_record (asc ''storage_methods'') = Some (JArr [])"
    by (simp_all add: override_record_def asc_inj)
  from getStorageData_merges_defaults[OF s f d] obtain merged where
    g: "getStorageData override_example (Some (JStr (asc ''fresh_apple''))) = JObj merged"
    and 1: "\<forall>f v. map_of override_record f = Some v \<and> v \<noteq> JNull \<longrightarrow> map_of merged f = Some v"
    and 3: "\<forall>f v. map_of override_record f = None
              \<and> field (default_entry (normalizeLabel (asc ''fresh_apple''))) f = Some v
              \<and> v \<noteq> JNull \<longrightarrow> map_of merged f = Some v"
    by blast
  from 3 src dsrc ne have "map_of merged (asc ''source'') =
         Some (JStr (asc ''USDA Food Storage Guidelines & University of Maine Cooperative Extension''))"
    by blast
  moreover from 1 st have "map_of merged (asc ''storage'') = Some (JStr (asc ''Pantry''))"
    "map_of merged (asc ''shelf_life'') = Some (JNum (Fin 3))"
    "map_of merged (asc ''storage_methods'') = Some (JArr [])"
    by simp_all
  ultimately show ?thesis using g by blast
qed

text \<open>
  The earlier \<open>getStorageData\<close> returns an override record as it is stored: the record
  without \<open>tips\<close> comes back without \<open>tips\<close>, though the built-in record of that
  version has one.
\<close>

theorem getStorageData_legacy_no_backfill:
  "getStorageData_legacy override_without_tips (Some (JStr (asc ''fresh_apple'')))
     = JObj [(asc ''storage'', JStr (asc ''Pantry'')), (asc ''status'', JStr (asc ''Fresh''))]
   \<and> map_of DEFAULT_Fresh_Apple_legacy (asc ''tips'')
       = Some (JStr (asc ''Store away from other fruits to prevent ripening''))"
proof -
  have ne: "asc ''fresh_apple'' \<noteq> []" by (simp add: asc_def)
  have a: "getStorageData_legacy override_without_tips (Some (JStr (asc ''fresh_apple'')))
     = JObj [(asc ''storage'', JStr (asc ''Pantry'')), (asc ''status'', JStr (asc ''Fresh''))]"
    using ne
    by (simp add: getStorageData_legacy_def normalizeLabel_fresh_apple obj_get_def override_without_tips_def)
  have b: "map_of DEFAULT_Fresh_Apple_legacy (asc ''tips'')
       = Some (JStr (asc ''Store away from other fruits to prevent ripening''))"
    by (simp add: DEFAULT_Fresh_Apple_legacy_def asc_inj)
  from a b show ?thesis by simp
qed

lemma getStorageData_no_match:
  assumes "s \<noteq> []" "normalizeLabel s \<notin> set object_prototype_keys"
    and "\<forall>(key, value)\<in>set storageData. toLowerCase key \<noteq> toLowerCase (normalizeLabel s)"
  shows "getStorageData storageData (Some (JStr s)) = JNull"
proof -
  let ?n = "normalizeLabel s"
  have "map_of storageData ?n = None"
  proof (cases "map_of storageData ?n")
    case None
    then show ?thesis .
  next
    case (Some v)
    then have "(?n, v) \<in> set storageData" by (rule map_of_SomeD)
    with assms(3) show ?thesis by auto
  qed
  with assms(2) have og: "obj_get storageData ?n = None" by (simp add: obj_get_def)
  have "find (\<lambda>(key, value). toLowerCase key = toLowerCase ?n) storageData = None"
    using assms(3) by (auto simp: find_None_iff)
  with og assms(1) show ?thesis by (simp add: getStorageData_def find_entry_def Let_def)
qed

lemma getStorageData_Rotten_Apple:
  "\<exists>r. getStorageData DEFAULT_STORAGE_DATA (Some (JStr (asc ''Rotten_Apple''))) = JObj r
      \<and> map_of r (asc ''status'') = Some (JStr (asc ''Rotten''))
      \<and> map_of r (asc ''shelf_life'') = Some (JNum (Fin 0))"
proof -
  have d: "distinct (map fst DEFAULT_Rotten_Apple)" by (rule DEFAULT_records_distinct)
  from map_of_merge_entry[OF d, of "asc ''Rotten_Apple''"] obtain merged where
    m: "merge_entry (JObj DEFAULT_Rotten_Apple) (asc ''Rotten_Apple'') = JObj merged"
    and a: "\<forall>f. f \<notin> set backfilled_fields \<longrightarrow>
            map_of merged f = (case map_of DEFAULT_Rotten_Apple f of Some v \<Rightarrow> Some v
               | None \<Rightarrow> field (default_entry (asc ''Rotten_Apple'')) f)"
    by blast
  have fe: "find_entry DEFAULT_STORAGE_DATA (asc ''Rotten_Apple'') = Some (JObj DEFAULT_Rotten_Apple)"
    by (simp add: find_entry_def obj_get_def DEFAULT_STORAGE_DATA_def asc_inj)
  have ne: "asc ''Rotten_Apple'' \<noteq> []" by (simp add: asc_def)
  have g: "getStorageData DEFAULT_STORAGE_DATA (Some (JStr (asc ''Rotten_Apple''))) = JObj merged"
    using fe m ne by (simp add: getStorageData_def normalizeLabel_Rotten_Apple Let_def)
  have nb: "asc ''status'' \<notin> set backfilled_fields" "asc ''shelf_life'' \<notin> set backfilled_fields"
    by (simp_all add: backfilled_fields_def asc_inj)
  have "map_of DEFAULT_Rotten_Apple (asc ''status'') = Some (JStr (asc ''Rotten''))"
    "map_of DEFAULT_Rotten_Apple (asc ''shelf_life'') = Some (JNum (Fin 0))"
    by (simp_all add: DEFAULT_Rotten_Apple_def asc_inj)
  with a nb have "map_of merged (asc ''status'') = Some (JStr (asc ''Rotten''))"
    "map_of merged (asc ''shelf_life'') = Some (JNum (Fin 0))"
    by simp_all
  with g show ?thesis by blast
qed

text \<open>
  Claim C8 at the label \<open>constructor\<close>.  No key of the built-in dataset is that label,
  with or without regard to case, yet the lookup does not return \<open>null\<close>:
  \<open>this.storageData[normalized]\<close> finds the function that every object inherits under
  that name, and the merge makes a record of placeholders from it.  The two lemmas before
  this theorem give the rest of the claim: a label that matches no key and names no
  inherited property is answered with \<open>null\<close>, and \<open>Rotten_Apple\<close> with a record whose
  status is \<open>Rotten\<close> and whose shelf life is 0.
\<close>

theorem getStorageData_constructor:
  "map_of DEFAULT_STORAGE_DATA (asc ''constructor'') = None
   \<and> find (\<lambda>(key, value). toLowerCase key = toLowerCase (normalizeLabel (asc ''constructor'')))
        DEFAULT_STORAGE_DATA = None
   \<and> getStorageData DEFAULT_STORAGE_DATA (Some (JStr (asc ''constructor''))) =
       JObj [(asc ''storage_methods'', JArr []), (asc ''ripeness_guide'', JObj []),
             (asc ''preparation_tips'', JObj []), (asc ''source'', JStr (asc ''Unknown''))]"
proof -
  have a: "map_of DEFAULT_STORAGE_DATA (asc ''constructor'') = None"
    by (simp add: DEFAULT_STORAGE_DATA_def asc_inj)
  have b: "find (\<lambda>(key, value). toLowerCase key = toLowerCase (normalizeLabel (asc ''constructor'')))
        DEFAULT_STORAGE_DATA = None"
    unfolding normalizeLabel_constructor
    by (simp add: DEFAULT_STORAGE_DATA_def asc_def toLowerCase_def lower_unit_def)
  have k: "asc ''constructor'' \<in> set object_prototype_keys"
    by (simp add: object_prototype_keys_def)
  have og: "obj_get DEFAULT_STORAGE_DATA (asc ''constructor'') = Some (JBuiltin (asc ''constructor''))"
    using a k by (simp add: obj_get_def)
  have fe: "find_entry DEFAULT_STORAGE_DATA (asc ''constructor'') = Some (JBuiltin (asc ''constructor''))"
    by (simp add: find_entry_def og)
  have de: "default_entry (asc ''constructor'') = JBuiltin (asc ''constructor'')"
    by (simp add: default_entry_def og)
  have me: "merge_entry (JBuiltin (asc ''constructor'')) (asc ''constructor'') =
       JObj [(asc ''storage_methods'', JArr []), (asc ''ripeness_guide'', JObj []),
             (asc ''preparation_tips'', JObj []), (asc ''source'', JStr (asc ''Unknown''))]"
    by (simp add: merge_entry_default de field_def or_else_def nullish_def object_literal_def asc_inj)
  have ne: "asc ''constructor'' \<noteq> []" by (simp add: asc_def)
  have "getStorageData DEFAULT_STORAGE_DATA (Some (JStr (asc ''constructor''))) =
       JObj [(asc ''storage_methods'', JArr []), (asc ''ripeness_guide'', JObj []),
             (asc ''preparation_tips'', JObj []), (asc ''source'', JStr (asc ''Unknown''))]"
    using fe me ne by (simp add: getStorageData_def normalizeLabel_constructor Let_def)
  with a b show ?thesis by simp
qed

text \<open>
  Claim C10, for both versions of \<open>getStorageData\<close>: called with \<open>undefined\<close> or
  \<open>null\<close> it returns the whole dataset object, and called with a truthy value that is
  not a string it returns \<open>null\<close>.
\<close>

theorem getStorageData_without_name:
  "getStorageData storageData None = JObj storageData
   \<and> getStorageData storageData (Some JNull) = JObj storageData
   \<and> (\<forall>v. truthy v \<and> (\<forall>s. v \<noteq> JStr s) \<longrightarrow> getStorageData storageData (Some v) = JNull)
   \<and> getStorageData_legacy storageData None = JObj storageData
   \<and> getStorageData_legacy storageData (Some JNull) = JObj storageData
   \<and> (\<forall>v. truthy v \<and> (\<forall>s. v \<noteq> JStr s) \<longrightarrow> getStorageData_legacy storageData (Some v) = JNull)"
proof -
  have a: "\<forall>v. truthy v \<and> (\<forall>s. v \<noteq> JStr s) \<longrightarrow> getStorageData storageData (Some v) = JNull"
  proof (intro allI impI)
    fix v assume "truthy v \<and> (\<forall>s. v \<noteq> JStr s)"
    then show "getStorageData storageData (Some v) = JNull"
      by (cases v) (simp_all add: getStorageData_def)
  qed
  have b: "\<forall>v. truthy v \<and> (\<forall>s. v \<noteq> JStr s) \<longrightarrow> getStorageData_legacy storageData (Some v) = JNull"
  proof (intro allI impI)
    fix v assume "truthy v \<and> (\<forall>s. v \<noteq> JStr s)"
    then show "getStorageData_legacy storageData (Some v) = JNull"
      by (cases v) (simp_all add: getStorageData_legacy_def)
  qed
  from a b show ?thesis by (simp add: getStorageData_def getStorageData_legacy_def)
qed

theorem getStorageData_without_name_witness:
  "truthy (JNum (Fin 5))
   \<and> getStorageData DEFAULT_STORAGE_DATA (Some (JNum (Fin 5))) = JNull
   \<and> getStorageData DEFAULT_STORAGE_DATA None = JObj DEFAULT_STORAGE_DATA"
proof -
  have t: "truthy (JNum (Fin 5)) \<and> (\<forall>s. JNum (Fin 5) \<noteq> JStr s)" by simp
  with getStorageData_without_name[of DEFAULT_STORAGE_DATA] show ?thesis by blast
qed

end
